theory Spec2Isabelle
  imports Main
begin

section \<open>The Splunk HEC exporter client (exporter/splunkhecexporter/client.go)\<close>

text \<open>
  The client pushes metrics, traces and logs to an HTTP endpoint. Its functions call into
  libraries (encoding/json, compress/gzip, net/http, sync) and into converters of the
  exporter that live in other files. Those appear here as the fields of an environment
  record; the client's own control flow is transcribed function by function. Every call
  that has an effect outside the function is appended to a trace kept in the state, in
  program order.
\<close>

subsection \<open>Data\<close>

type_synonym bytes = string

text \<open>
  Go's \<open>error\<close> values. \<open>Opaque m\<close> is an error handed back by a library call (json, gzip,
  net/http), known by its message; \<open>Errorf m\<close> is the value of \<open>fmt.Errorf\<close> with the
  formatted message \<open>m\<close>; \<open>Permanent\<close> and \<open>PartialLogsError\<close> are the wrappers of package
  consumererror, the second carrying the logs that were not delivered.
\<close>

datatype 'l error =
    Opaque string
  | Errorf string
  | Permanent "'l error"
  | PartialLogsError "'l error" 'l

fun isPermanent :: "'l error \<Rightarrow> bool" where
  "isPermanent (Permanent e) = True"
| "isPermanent e = False"

record request =
  req_method :: string
  req_url :: string
  req_header :: "(string \<times> string) list"
  req_body :: bytes

record response =
  StatusCode :: int
  Body :: bytes

datatype event =
    WgAdd | WgDone | WgWait
  | PoolGet | PoolPut
  | GzReset | GzWrite bytes | GzFlush | GzClose
  | Cancel
  | HttpDo request "string + response" | BodyDrain | BodyClose

record config =
  DisableCompression :: bool
  MaxContentLength :: nat

record client =
  config :: config
  url :: string
  headers :: "(string \<times> string) list"

text \<open>
  The trace records \<open>HttpDo req r\<close> for a call \<open>c.client.Do(req)\<close> that returned \<open>r\<close> (the
  message of the error, or the response), \<open>BodyDrain\<close> for
  \<open>io.Copy(ioutil.Discard, resp.Body)\<close> and \<open>BodyClose\<close> for \<open>resp.Body.Close()\<close>.

  The mutable part of the client: the idle engines of the \<open>sync.Pool\<close> \<open>zippers\<close>, the
  counter of the \<open>sync.WaitGroup\<close> \<open>wg\<close>, the number of requests handed to the HTTP client
  so far, and the trace.
\<close>

record 'z state =
  zippers :: "'z list"
  wg :: int
  calls :: nat
  trace :: "event list"

text \<open>
  The environment. \<open>'m\<close> and \<open>'t\<close> are \<open>pdata.Metrics\<close> and \<open>pdata.Traces\<close>, \<open>'r\<close> is a log
  record, \<open>'e\<close> is \<open>*splunk.Event\<close>, \<open>'z\<close> is the internal state of a \<open>*gzip.Writer\<close>.
  \<^item> \<open>metricDataToSplunk\<close>, \<open>traceDataToSplunk\<close>: the converters, on the logger and the
    configuration of the client, returning the events and the number of records they
    dropped; \<open>MetricAndDataPointCount\<close>, \<open>SpanCount\<close>: the counting methods of pdata.
  \<^item> \<open>jsonEncode e\<close>: the bytes that \<open>encoder.Encode(e)\<close> appends to its buffer, or the
    message of its error; \<open>logEncode r\<close>: the same for the event made of the log record \<open>r\<close>.
  \<^item> \<open>gzNew\<close>: the engine the pool makes when it has none idle; \<open>gzReset\<close>, \<open>gzWrite\<close>,
    \<open>gzFlush\<close>, \<open>gzClose\<close>: the methods of the engine, each returning its error (if any),
    the engine's next state and the bytes it appended to its destination buffer.
  \<^item> \<open>requestError u\<close>: the error of \<open>http.NewRequestWithContext\<close> for the URL \<open>u\<close>, if any.
  \<^item> \<open>httpDo n req\<close>: what \<open>c.client.Do(req)\<close> returns when it is the client's \<open>n\<close>-th call.
  \<^item> \<open>StatusText\<close>: \<open>http.StatusText\<close>.
\<close>

record ('m, 't, 'r, 'e, 'z) env =
  metricDataToSplunk :: "'m \<Rightarrow> 'e list \<times> int"
  MetricAndDataPointCount :: "'m \<Rightarrow> int \<times> int"
  traceDataToSplunk :: "'t \<Rightarrow> 'e list \<times> int"
  SpanCount :: "'t \<Rightarrow> int"
  jsonEncode :: "'e \<Rightarrow> string + bytes"
  logEncode :: "'r \<Rightarrow> string + bytes"
  gzNew :: 'z
  gzReset :: "'z \<Rightarrow> 'z"
  gzWrite :: "'z \<Rightarrow> bytes \<Rightarrow> string option \<times> 'z \<times> bytes"
  gzFlush :: "'z \<Rightarrow> string option \<times> 'z \<times> bytes"
  gzClose :: "'z \<Rightarrow> string option \<times> 'z \<times> bytes"
  requestError :: "string \<Rightarrow> string option"
  httpDo :: "nat \<Rightarrow> request \<Rightarrow> string + response"
  StatusText :: "int \<Rightarrow> string"

subsection \<open>Library calls on the state\<close>

definition emit :: "event \<Rightarrow> 'z state \<Rightarrow> 'z state" where
  "emit ev s = s\<lparr>trace := trace s @ [ev]\<rparr>"

definition wgAdd :: "'z state \<Rightarrow> 'z state" where
  "wgAdd s = emit WgAdd (s\<lparr>wg := wg s + 1\<rparr>)"

definition wgDone :: "'z state \<Rightarrow> 'z state" where
  "wgDone s = emit WgDone (s\<lparr>wg := wg s - 1\<rparr>)"

text \<open>\<open>zippers.Get()\<close>: an idle engine, or a new one when none is idle.\<close>

definition poolGet :: "('m, 't, 'r, 'e, 'z) env \<Rightarrow> 'z state \<Rightarrow> 'z \<times> 'z state" where
  "poolGet env s =
     (case zippers s of
        [] \<Rightarrow> (gzNew env, emit PoolGet s)
      | w # ws \<Rightarrow> (w, emit PoolGet (s\<lparr>zippers := ws\<rparr>)))"

definition poolPut :: "'z \<Rightarrow> 'z state \<Rightarrow> 'z state" where
  "poolPut w s = emit PoolPut (s\<lparr>zippers := w # zippers s\<rparr>)"

text \<open>\<open>c.client.Do(req)\<close>.\<close>

definition clientDo ::
  "('m, 't, 'r, 'e, 'z) env \<Rightarrow> request \<Rightarrow> 'z state \<Rightarrow> (string + response) \<times> 'z state" where
  "clientDo env req s =
     (httpDo env (calls s) req,
      emit (HttpDo req (httpDo env (calls s) req)) (s\<lparr>calls := calls s + 1\<rparr>))"

text \<open>\<open>req.Header.Set(k, v)\<close>, on header keys in canonical form.\<close>

fun headerSet :: "string \<Rightarrow> string \<Rightarrow> (string \<times> string) list \<Rightarrow> (string \<times> string) list" where
  "headerSet k v [] = [(k, v)]"
| "headerSet k v ((k', v') # hs) = (if k' = k then (k, v) # hs else (k', v') # headerSet k v hs)"

definition setHeader :: "string \<Rightarrow> string \<Rightarrow> request \<Rightarrow> request" where
  "setHeader k v req = req\<lparr>req_header := headerSet k v (req_header req)\<rparr>"

text \<open>\<open>http.NewRequestWithContext(ctx, "POST", c.url.String(), body)\<close>.\<close>

definition newRequest ::
  "('m, 't, 'r, 'e, 'z) env \<Rightarrow> client \<Rightarrow> bytes \<Rightarrow> string + request" where
  "newRequest env c b =
     (case requestError env (url c) of
        Some m \<Rightarrow> Inl m
      | None \<Rightarrow> Inr \<lparr>req_method = ''POST'', req_url = url c, req_header = [], req_body = b\<rparr>)"

subsection \<open>Formatting\<close>

text \<open>The verb \<open>%d\<close> of package fmt on an \<open>int\<close>.\<close>

definition digitChar :: "nat \<Rightarrow> char" where
  "digitChar n = ''0123456789'' ! n"

function digits :: "nat \<Rightarrow> string" where
  "digits n = (if n < 10 then [digitChar n] else digits (n div 10) @ [digitChar (n mod 10)])"
  by pat_completeness auto
termination
  by (relation "measure (\<lambda>n. n)") auto

declare digits.simps [simp del]

definition fmt_d :: "int \<Rightarrow> string" where
  "fmt_d i = (if i < 0 then CHR ''-'' # digits (nat (- i)) else digits (nat i))"

text \<open>
  The verb \<open>%q\<close> on a string: the string in double quotes, with the quote and the backslash
  escaped. A byte outside printable ASCII is written as a hexadecimal escape (Go decodes
  UTF-8 there and has short escapes for some control characters; no text of
  \<open>http.StatusText\<close> has such a byte).
\<close>

definition plainChar :: "char \<Rightarrow> bool" where
  "plainChar c \<longleftrightarrow> 32 \<le> (of_char c :: nat) \<and> (of_char c :: nat) < 127 \<and> c \<noteq> CHR 0x22 \<and> c \<noteq> CHR 0x5C"

definition hexChar :: "nat \<Rightarrow> char" where
  "hexChar n = ''0123456789abcdef'' ! n"

definition quoteChar :: "char \<Rightarrow> string" where
  "quoteChar c =
     (if c = CHR 0x22 then [CHR 0x5C, CHR 0x22]
      else if c = CHR 0x5C then [CHR 0x5C, CHR 0x5C]
      else if plainChar c then [c]
      else [CHR 0x5C, CHR ''x'', hexChar ((of_char c :: nat) div 16), hexChar ((of_char c :: nat) mod 16)])"

definition fmt_q :: "string \<Rightarrow> string" where
  "fmt_q t = [CHR 0x22] @ concat (map quoteChar t) @ [CHR 0x22]"

subsection \<open>Encoding and compression\<close>

text \<open>The separator \<open>"\r\n\r\n"\<close> written after each event.\<close>

definition sep :: bytes where
  "sep = [CHR 0x0D, CHR 0x0A, CHR 0x0D, CHR 0x0A]"

text \<open>
  \<open>getReader\<close> (lines 236-252). The deferred \<open>zippers.Put(w)\<close> runs on each of the three
  ways out of the compressing branch. The fresh buffer \<open>buf\<close> holds what the engine
  appended during \<open>Write\<close> and \<open>Close\<close>.
\<close>

definition getReader ::
  "('m, 't, 'r, 'e, 'z) env \<Rightarrow> bytes \<Rightarrow> bool \<Rightarrow> 'z state
     \<Rightarrow> (bytes \<times> bool \<times> ('r list) error option) \<times> 'z state" where
  "getReader env b disableCompression s =
     (if \<not> disableCompression \<and> length b > 1500 then
        (case poolGet env s of (w, s1) \<Rightarrow>
           (case gzWrite env (gzReset env w) b of
              (Some m, w2, out) \<Rightarrow>
                ((b, False, Some (Opaque m)), poolPut w2 (emit (GzWrite b) (emit GzReset s1)))
            | (None, w2, out) \<Rightarrow>
                (case gzClose env w2 of
                   (Some m, w3, out') \<Rightarrow>
                     ((b, False, Some (Opaque m)),
                      poolPut w3 (emit GzClose (emit (GzWrite b) (emit GzReset s1))))
                 | (None, w3, out') \<Rightarrow>
                     ((out @ out', True, None),
                      poolPut w3 (emit GzClose (emit (GzWrite b) (emit GzReset s1)))))))
      else ((b, False, None), s))"

text \<open>
  The loop of \<open>encodeBodyEvents\<close> and \<open>encodeBody\<close>: each event is encoded into the buffer
  and followed by the separator; the first encoding error ends the loop.
\<close>

fun encodeLoop :: "('e \<Rightarrow> string + bytes) \<Rightarrow> bytes \<Rightarrow> 'e list \<Rightarrow> string + bytes" where
  "encodeLoop enc buf [] = Inr buf"
| "encodeLoop enc buf (e # evs) =
     (case enc e of
        Inl m \<Rightarrow> Inl m
      | Inr js \<Rightarrow> encodeLoop enc (buf @ js @ sep) evs)"

text \<open>\<open>encodeBodyEvents\<close> (lines 209-220).\<close>

definition encodeBodyEvents ::
  "('m, 't, 'r, 'e, 'z) env \<Rightarrow> 'e list \<Rightarrow> bool \<Rightarrow> 'z state
     \<Rightarrow> (bytes \<times> bool \<times> ('r list) error option) \<times> 'z state" where
  "encodeBodyEvents env evs disableCompression s =
     (case encodeLoop (jsonEncode env) [] evs of
        Inl m \<Rightarrow> (([], False, Some (Opaque m)), s)
      | Inr buf \<Rightarrow> getReader env buf disableCompression s)"

text \<open>\<open>encodeBody\<close> (lines 222-233).\<close>

definition encodeBody ::
  "('m, 't, 'r, 'e, 'z) env \<Rightarrow> 'e list \<Rightarrow> bool \<Rightarrow> 'z state
     \<Rightarrow> (bytes \<times> bool \<times> ('r list) error option) \<times> 'z state" where
  "encodeBody env dps disableCompression s =
     (case encodeLoop (jsonEncode env) [] dps of
        Inl m \<Rightarrow> (([], False, Some (Opaque m)), s)
      | Inr buf \<Rightarrow> getReader env buf disableCompression s)"

subsection \<open>Transport\<close>

text \<open>The error for a status outside 2XX: \<open>fmt.Errorf("HTTP %d %q", code, StatusText(code))\<close>.\<close>

definition statusError :: "('m, 't, 'r, 'e, 'z) env \<Rightarrow> int \<Rightarrow> ('r list) error" where
  "statusError env code = Errorf (''HTTP '' @ fmt_d code @ '' '' @ fmt_q (StatusText env code))"

text \<open>The static headers, then the content-encoding marker (lines 133-139 and 70-76).\<close>

definition withHeaders :: "client \<Rightarrow> bool \<Rightarrow> request \<Rightarrow> request" where
  "withHeaders c compressed req =
     (let req1 = fold (\<lambda>(k, v). setHeader k v) (headers c) req
      in if compressed then setHeader ''Content-Encoding'' ''gzip'' req1 else req1)"

text \<open>\<open>postEvents\<close> (lines 127-158).\<close>

definition postEvents ::
  "('m, 't, 'r, 'e, 'z) env \<Rightarrow> client \<Rightarrow> bytes \<Rightarrow> bool \<Rightarrow> 'z state
     \<Rightarrow> ('r list) error option \<times> 'z state" where
  "postEvents env c events compressed s =
     (case newRequest env c events of
        Inl m \<Rightarrow> (Some (Permanent (Opaque m)), s)
      | Inr req \<Rightarrow>
          (case clientDo env (withHeaders c compressed req) s of
             (Inl m, s1) \<Rightarrow> (Some (Opaque m), s1)
           | (Inr resp, s1) \<Rightarrow>
               (if StatusCode resp < 200 \<or> StatusCode resp \<ge> 300
                then (Some (statusError env (StatusCode resp)), emit BodyClose (emit BodyDrain s1))
                else (None, emit BodyClose (emit BodyDrain s1)))))"

text \<open>\<open>sendSplunkEvents\<close> (lines 118-125).\<close>

definition sendSplunkEvents ::
  "('m, 't, 'r, 'e, 'z) env \<Rightarrow> client \<Rightarrow> 'e list \<Rightarrow> 'z state \<Rightarrow> ('r list) error option \<times> 'z state" where
  "sendSplunkEvents env c splunkEvents s =
     (case encodeBodyEvents env splunkEvents (DisableCompression (config c)) s of
        ((b, compressed, Some err), s1) \<Rightarrow> (Some (Permanent err), s1)
      | ((b, compressed, None), s1) \<Rightarrow> postEvents env c b compressed s1)"

subsection \<open>Pushing metrics and traces\<close>

definition numMetricPoint :: "('m, 't, 'r, 'e, 'z) env \<Rightarrow> 'm \<Rightarrow> int" where
  "numMetricPoint env md = snd (MetricAndDataPointCount env md)"

text \<open>
  \<open>pushMetricsData\<close> (lines 48-96). \<open>c.wg.Add(1)\<close> comes first and the deferred
  \<open>c.wg.Done()\<close> last, whatever the way out.
\<close>

definition metricsBody ::
  "('m, 't, 'r, 'e, 'z) env \<Rightarrow> client \<Rightarrow> 'm \<Rightarrow> 'z state \<Rightarrow> (int \<times> ('r list) error option) \<times> 'z state" where
  "metricsBody env c md s =
     (case metricDataToSplunk env md of (splunkDataPoints, numDroppedTimeseries) \<Rightarrow>
        if length splunkDataPoints = 0 then ((numDroppedTimeseries, None), s)
        else
          (case encodeBody env splunkDataPoints (DisableCompression (config c)) s of
             ((b, compressed, Some err), s1) \<Rightarrow> ((numMetricPoint env md, Some (Permanent err)), s1)
           | ((b, compressed, None), s1) \<Rightarrow>
               (case newRequest env c b of
                  Inl m \<Rightarrow> ((numMetricPoint env md, Some (Permanent (Opaque m))), s1)
                | Inr req \<Rightarrow>
                    (case clientDo env (withHeaders c compressed req) s1 of
                       (Inl m, s2) \<Rightarrow> ((numMetricPoint env md, Some (Opaque m)), s2)
                     | (Inr resp, s2) \<Rightarrow>
                         (if StatusCode resp < 200 \<or> StatusCode resp \<ge> 300
                          then ((numMetricPoint env md, Some (statusError env (StatusCode resp))),
                                emit BodyClose (emit BodyDrain s2))
                          else ((numDroppedTimeseries, None),
                                emit BodyClose (emit BodyDrain s2)))))))"

definition pushMetricsData ::
  "('m, 't, 'r, 'e, 'z) env \<Rightarrow> client \<Rightarrow> 'm \<Rightarrow> 'z state \<Rightarrow> (int \<times> ('r list) error option) \<times> 'z state" where
  "pushMetricsData env c md s =
     (case metricsBody env c md (wgAdd s) of (r, s1) \<Rightarrow> (r, wgDone s1))"

text \<open>\<open>pushTraceData\<close> (lines 98-116).\<close>

definition tracesBody ::
  "('m, 't, 'r, 'e, 'z) env \<Rightarrow> client \<Rightarrow> 't \<Rightarrow> 'z state \<Rightarrow> (int \<times> ('r list) error option) \<times> 'z state" where
  "tracesBody env c td s =
     (case traceDataToSplunk env td of (splunkEvents, numDroppedSpans) \<Rightarrow>
        if length splunkEvents = 0 then ((numDroppedSpans, None), s)
        else
          (case sendSplunkEvents env c splunkEvents s of
             (Some err, s1) \<Rightarrow> ((SpanCount env td, Some err), s1)
           | (None, s1) \<Rightarrow> ((numDroppedSpans, None), s1)))"

definition pushTraceData ::
  "('m, 't, 'r, 'e, 'z) env \<Rightarrow> client \<Rightarrow> 't \<Rightarrow> 'z state \<Rightarrow> (int \<times> ('r list) error option) \<times> 'z state" where
  "pushTraceData env c td s =
     (case tracesBody env c td (wgAdd s) of (r, s1) \<Rightarrow> (r, wgDone s1))"

subsection \<open>The log chunks\<close>

text \<open>
  Modelled from the spec: the type \<open>eventsBuf\<close> of a chunk and the methods \<open>chunkEvents\<close>,
  \<open>numLogs\<close> and \<open>subLogs\<close> of \<open>logDataWrapper\<close> are in a file of the exporter that is not
  among the sources. A logs batch is the ordered sequence of its records. A chunk has the
  position of its first record in the batch (\<open>index\<close>), its encoded buffer (\<open>buf\<close>) and an
  optional terminal error (\<open>err\<close>).
\<close>

record 'l chunk =
  index :: nat
  buf :: bytes
  err :: "'l error option"

text \<open>
  Modelled from the spec: \<open>numLogs\<close> counts the records of the batch from a position
  onward, \<open>subLogs\<close> is the batch re-sliced from that position.
\<close>

definition numLogs :: "'r list \<Rightarrow> nat \<Rightarrow> int" where
  "numLogs ld from = int (length ld - from)"

definition subLogs :: "'r list \<Rightarrow> nat \<Rightarrow> 'r list" where
  "subLogs ld from = drop from ld"

text \<open>
  Modelled from the spec: the chunk producer serializes the records one by one into an
  accumulating buffer, each followed by the separator, and cuts a chunk when appending the
  next record would exceed the maximum content length, or when the input is exhausted. A
  record that alone exceeds the maximum forms a chunk of its own. A record that cannot be
  encoded ends the sequence with an error chunk, which stands for all records not yet
  delivered. Each chunk is paired with the records it stands for; \<open>pos\<close> is the position
  of the first of the pending records \<open>pend\<close>, whose encoding is \<open>acc\<close>.
\<close>

fun chunkLoop ::
  "('r \<Rightarrow> string + bytes) \<Rightarrow> nat \<Rightarrow> nat \<Rightarrow> 'r list \<Rightarrow> bytes \<Rightarrow> 'r list
     \<Rightarrow> (('r list) chunk \<times> 'r list) list" where
  "chunkLoop enc maxLen pos pend acc [] = [(\<lparr>index = pos, buf = acc, err = None\<rparr>, pend)]"
| "chunkLoop enc maxLen pos pend acc (r # rs) =
     (case enc r of
        Inl m \<Rightarrow> [(\<lparr>index = pos, buf = [], err = Some (Permanent (Opaque m))\<rparr>, pend @ r # rs)]
      | Inr js \<Rightarrow>
          if acc \<noteq> [] \<and> length acc + length (js @ sep) > maxLen
          then (\<lparr>index = pos, buf = acc, err = None\<rparr>, pend)
                 # chunkLoop enc maxLen (pos + length pend) [r] (js @ sep) rs
          else chunkLoop enc maxLen pos (pend @ [r]) (acc @ js @ sep) rs)"

text \<open>
  Modelled from the spec: \<open>chunkEvents\<close>, the chunks of a batch in order (the channel that
  \<open>pushLogData\<close> ranges over, as a list), and \<open>chunkRecords\<close>, the same chunks with their
  records.
\<close>

definition chunkRecords ::
  "('m, 't, 'r, 'e, 'z) env \<Rightarrow> config \<Rightarrow> 'r list \<Rightarrow> (('r list) chunk \<times> 'r list) list" where
  "chunkRecords env cfg ld = chunkLoop (logEncode env) (MaxContentLength cfg) 0 [] [] ld"

definition chunkEvents ::
  "('m, 't, 'r, 'e, 'z) env \<Rightarrow> config \<Rightarrow> 'r list \<Rightarrow> ('r list) chunk list" where
  "chunkEvents env cfg ld = map fst (chunkRecords env cfg ld)"

subsection \<open>Pushing logs\<close>

text \<open>
  The loop over the chunks of \<open>pushLogData\<close> (lines 175-204), on the engine \<open>w\<close> (the
  state of \<open>gzipWriter\<close>), the contents of \<open>gzipBuf\<close> and the client's state. The result is
  \<open>Some (n, e)\<close> when the loop returns \<open>n, e\<close> from the function and \<open>None\<close> when it runs to
  the end of the chunks. The error of \<open>gzipWriter.Flush()\<close> is not looked at. What is left
  of \<open>gzipBuf\<close> after a failed post is used by nothing.
\<close>

fun consumeChunks ::
  "('m, 't, 'r, 'e, 'z) env \<Rightarrow> client \<Rightarrow> 'r list \<Rightarrow> ('r list) chunk list \<Rightarrow> 'z \<Rightarrow> bytes \<Rightarrow> 'z state
     \<Rightarrow> (int \<times> ('r list) error) option \<times> 'z \<times> bytes \<times> 'z state" where
  "consumeChunks env c ld [] w gzipBuf s = (None, w, gzipBuf, s)"
| "consumeChunks env c ld (chunk # rest) w gzipBuf s =
     (case err chunk of
        Some e \<Rightarrow> (Some (numLogs ld (index chunk), e), w, gzipBuf, s)
      | None \<Rightarrow>
          if length (buf chunk) = 0 then consumeChunks env c ld rest w gzipBuf s
          else if length (buf chunk) \<le> 1500 \<or> DisableCompression (config c) then
            (case postEvents env c (buf chunk) False s of
               (Some e, s1) \<Rightarrow>
                 (Some (numLogs ld (index chunk), PartialLogsError e (subLogs ld (index chunk))),
                  w, gzipBuf, s1)
             | (None, s1) \<Rightarrow> consumeChunks env c ld rest w gzipBuf s1)
          else
            (case gzWrite env w (buf chunk) of
               (Some m, w1, out) \<Rightarrow>
                 (Some (numLogs ld (index chunk), Permanent (Opaque m)),
                  w1, gzipBuf @ out, emit (GzWrite (buf chunk)) s)
             | (None, w1, out) \<Rightarrow>
                 (case gzFlush env w1 of (flushErr, w2, out2) \<Rightarrow>
                    (case postEvents env c (gzipBuf @ out @ out2) True
                            (emit GzFlush (emit (GzWrite (buf chunk)) s)) of
                       (Some e, s1) \<Rightarrow>
                         (Some (numLogs ld (index chunk),
                                PartialLogsError e (subLogs ld (index chunk))),
                          w2, gzipBuf @ out @ out2, s1)
                     | (None, s1) \<Rightarrow>
                         consumeChunks env c ld rest (gzReset env w2) [] (emit GzReset s1)))))"

text \<open>
  \<open>pushLogData\<close> (lines 160-207): the calls before the loop, the loop, and the deferred calls
  in the reverse of the order in which they were deferred: \<open>cancel()\<close>,
  \<open>gzipWriter.Close()\<close>, \<open>c.zippers.Put(gzipWriter)\<close>, \<open>c.wg.Done()\<close>.
\<close>

definition pushLogStart :: "('m, 't, 'r, 'e, 'z) env \<Rightarrow> 'z state \<Rightarrow> 'z \<times> bytes \<times> 'z state" where
  "pushLogStart env s =
     (case poolGet env (wgAdd s) of (gzipWriter, s1) \<Rightarrow>
        (gzReset env gzipWriter, [], emit GzReset s1))"

definition pushLogDeferred :: "('m, 't, 'r, 'e, 'z) env \<Rightarrow> 'z \<Rightarrow> 'z state \<Rightarrow> 'z state" where
  "pushLogDeferred env w s =
     (case gzClose env w of (closeErr, w1, out) \<Rightarrow>
        wgDone (poolPut w1 (emit GzClose (emit Cancel s))))"

definition pushLogData ::
  "('m, 't, 'r, 'e, 'z) env \<Rightarrow> client \<Rightarrow> 'r list \<Rightarrow> 'z state
     \<Rightarrow> (int \<times> ('r list) error option) \<times> 'z state" where
  "pushLogData env c ld s =
     (case pushLogStart env s of (w0, gzipBuf0, s0) \<Rightarrow>
        (case consumeChunks env c ld (chunkEvents env (config c) ld) w0 gzipBuf0 s0 of
           (r, w, gzipBuf, s1) \<Rightarrow>
             ((case r of Some (n, e) \<Rightarrow> (n, Some e) | None \<Rightarrow> (0, None)),
              pushLogDeferred env w s1)))"

subsection \<open>Lifecycle\<close>

text \<open>
  \<open>stop\<close> (lines 254-257) returns \<open>nil\<close> once \<open>c.wg.Wait()\<close> has returned, which it does when
  the counter is zero; \<open>None\<close> stands for a call that is still waiting. \<open>start\<close> (lines
  259-261) returns \<open>nil\<close>.
\<close>

definition stop :: "'z state \<Rightarrow> ('l error option \<times> 'z state) option" where
  "stop s = (if wg s = 0 then Some (None, emit WgWait s) else None)"

definition start :: "'z state \<Rightarrow> 'l error option \<times> 'z state" where
  "start s = (None, s)"


subsection \<open>Reading the trace\<close>

text \<open>A trace is checked by running an automaton over it; \<open>None\<close> is a rejected trace.\<close>

fun run :: "('q \<Rightarrow> event \<Rightarrow> 'q option) \<Rightarrow> 'q \<Rightarrow> event list \<Rightarrow> 'q option" where
  "run step q [] = Some q"
| "run step q (e # es) = (case step q e of None \<Rightarrow> None | Some q' \<Rightarrow> run step q' es)"

text \<open>
  The engine of the pool as the operations of this file see it: in the pool (\<open>Idle\<close>), taken
  but not reset since (\<open>Taken\<close>), or taken and reset (\<open>Ready\<close>). Writing to, flushing or
  closing an engine that is not \<open>Ready\<close> is rejected, and so is taking a second engine or
  putting back one that was not taken.
\<close>

datatype engine = Idle | Taken | Ready

fun engineStep :: "engine \<Rightarrow> event \<Rightarrow> engine option" where
  "engineStep q PoolGet = (if q = Idle then Some Taken else None)"
| "engineStep q PoolPut = (if q = Idle then None else Some Idle)"
| "engineStep q GzReset = (if q = Idle then None else Some Ready)"
| "engineStep q (GzWrite b) = (if q = Ready then Some Ready else None)"
| "engineStep q GzFlush = (if q = Ready then Some Ready else None)"
| "engineStep q GzClose = (if q = Ready then Some Ready else None)"
| "engineStep q e = Some q"

definition disciplined :: "event list \<Rightarrow> bool" where
  "disciplined t \<longleftrightarrow> run engineStep Idle t = Some Idle"

text \<open>
  The body of the last response: none outstanding (\<open>Released\<close>), returned by the HTTP client
  and not read (\<open>Unread\<close>), or read to its end and not closed (\<open>Drained\<close>). After a call that
  returned a response the next two events must be the draining and the closing of its body.
\<close>

datatype body = Released | Unread | Drained

fun bodyStep :: "body \<Rightarrow> event \<Rightarrow> body option" where
  "bodyStep Released (HttpDo req (Inr resp)) = Some Unread"
| "bodyStep Released (HttpDo req (Inl m)) = Some Released"
| "bodyStep Released BodyDrain = None"
| "bodyStep Released BodyClose = None"
| "bodyStep Released e = Some Released"
| "bodyStep Unread BodyDrain = Some Drained"
| "bodyStep Unread e = None"
| "bodyStep Drained BodyClose = Some Released"
| "bodyStep Drained e = None"

definition bodiesReleased :: "event list \<Rightarrow> bool" where
  "bodiesReleased t \<longleftrightarrow> run bodyStep Released t = Some Released"

text \<open>The requests handed to the HTTP client, in order.\<close>

fun requests :: "event list \<Rightarrow> request list" where
  "requests [] = []"
| "requests (HttpDo req r # es) = req # requests es"
| "requests (e # es) = requests es"

text \<open>
  \<open>inside s s1\<close>: the state \<open>s1\<close> comes after \<open>s\<close>, and nothing was done on the wait group
  in between.
\<close>

definition inside :: "'z state \<Rightarrow> 'z state \<Rightarrow> bool" where
  "inside s s1 \<longleftrightarrow> (\<exists>t. trace s1 = trace s @ t \<and> WgAdd \<notin> set t \<and> WgDone \<notin> set t \<and> WgWait \<notin> set t)"

subsection \<open>Notions used to state the properties\<close>

text \<open>The request that carries the body \<open>b\<close>, with or without the content-encoding marker.\<close>

definition wireRequest :: "client \<Rightarrow> bytes \<Rightarrow> bool \<Rightarrow> request" where
  "wireRequest c b compressed =
     withHeaders c compressed
       \<lparr>req_method = ''POST'', req_url = url c, req_header = [], req_body = b\<rparr>"

text \<open>
  What an engine appends to an empty buffer when the whole of \<open>b\<close> is written to it after a
  reset and it is then closed (\<open>gzipClosed\<close>, as in \<open>getReader\<close>) or flushed (\<open>gzipFlushed\<close>,
  as in \<open>pushLogData\<close>).
\<close>

definition gzipClosed :: "('m, 't, 'r, 'e, 'z) env \<Rightarrow> 'z \<Rightarrow> bytes \<Rightarrow> bytes" where
  "gzipClosed env w b =
     (case gzWrite env (gzReset env w) b of (e1, w2, out) \<Rightarrow>
        (case gzClose env w2 of (e2, w3, out') \<Rightarrow> out @ out'))"

definition gzipFlushed :: "('m, 't, 'r, 'e, 'z) env \<Rightarrow> 'z \<Rightarrow> bytes \<Rightarrow> bytes" where
  "gzipFlushed env w b =
     (case gzWrite env (gzReset env w) b of (e1, w2, out) \<Rightarrow>
        (case gzFlush env w2 of (e2, w3, out') \<Rightarrow> out @ out'))"

text \<open>The wire form of a chunk: compressed exactly when it is longer than 1500 bytes and
  compression is not disabled.\<close>

definition chunkWire ::
  "('m, 't, 'r, 'e, 'z) env \<Rightarrow> client \<Rightarrow> 'z \<Rightarrow> 'l chunk \<Rightarrow> request" where
  "chunkWire env c w chunk =
     (if \<not> DisableCompression (config c) \<and> 1500 < length (buf chunk)
      then wireRequest c (gzipFlushed env w (buf chunk)) True
      else wireRequest c (buf chunk) False)"

text \<open>The serialization of an event or of a log record, when it has one.\<close>

definition jsonOf :: "('a \<Rightarrow> string + bytes) \<Rightarrow> 'a \<Rightarrow> bytes" where
  "jsonOf enc e = (case enc e of Inl m \<Rightarrow> [] | Inr js \<Rightarrow> js)"

definition encodable :: "('a \<Rightarrow> string + bytes) \<Rightarrow> 'a \<Rightarrow> bool" where
  "encodable enc e = (case enc e of Inl m \<Rightarrow> False | Inr js \<Rightarrow> True)"

definition framed :: "('a \<Rightarrow> string + bytes) \<Rightarrow> 'a list \<Rightarrow> bytes" where
  "framed enc es = concat (map (\<lambda>e. jsonOf enc e @ sep) es)"

text \<open>
  Decoding a wire body, in the words of the specification: the body is un-gzipped if it is
  compressed, split on the separator, and each piece is parsed. \<open>splitOn cur xs\<close> cuts \<open>xs\<close>
  at each separator, \<open>cur\<close> being the piece read so far; what follows the last separator
  is a piece of its own unless it is empty.
\<close>

fun splitOn :: "bytes \<Rightarrow> bytes \<Rightarrow> bytes list" where
  "splitOn cur (a # b # c # d # xs) =
     (if [a, b, c, d] = sep then cur # splitOn [] xs
      else splitOn (cur @ [a]) (b # c # d # xs))"
| "splitOn cur xs = (if cur @ xs = [] then [] else [cur @ xs])"

definition decodeBody :: "(bytes \<Rightarrow> bytes) \<Rightarrow> (bytes \<Rightarrow> 'e) \<Rightarrow> bytes \<Rightarrow> bool \<Rightarrow> 'e list" where
  "decodeBody gunzip parse b compressed =
     map parse (splitOn [] (if compressed then gunzip b else b))"

subsection \<open>An example environment\<close>

text \<open>
  A small environment on which the functions can be run: events and log records are their
  own JSON text, the engine remembers what was written since its reset and emits it behind
  a marker when flushed or closed, the first call of the HTTP client is answered with status
  200, the second with status 503, and later calls fail.
\<close>

definition demoEnv :: "(string list, string list, string, string, bytes) env" where
  "demoEnv =
     \<lparr>metricDataToSplunk = (\<lambda>md. (md, 0)),
      MetricAndDataPointCount = (\<lambda>md. (1, int (length md))),
      traceDataToSplunk = (\<lambda>td. (td, 0)),
      SpanCount = (\<lambda>td. int (length td)),
      jsonEncode = (\<lambda>e. if e = [] then Inl ''unsupported value'' else Inr e),
      logEncode = (\<lambda>r. if r = [] then Inl ''unsupported value'' else Inr r),
      gzNew = [],
      gzReset = (\<lambda>w. []),
      gzWrite = (\<lambda>w b. (None, w @ b, [])),
      gzFlush = (\<lambda>w. (None, [], ''gz:'' @ w)),
      gzClose = (\<lambda>w. (None, [], ''gz:'' @ w)),
      requestError = (\<lambda>u. if u = [] then Some ''missing url'' else None),
      httpDo = (\<lambda>n req. if n = 0 then Inr \<lparr>StatusCode = 200, Body = ''ok''\<rparr>
                          else if n = 1 then Inr \<lparr>StatusCode = 503, Body = []\<rparr>
                          else Inl ''connection refused''),
      StatusText = (\<lambda>code. if code = 200 then ''OK''
                            else if code = 503 then ''Service Unavailable'' else [])\<rparr>"

definition demoClient :: client where
  "demoClient =
     \<lparr>config = \<lparr>DisableCompression = False, MaxContentLength = 20\<rparr>,
      url = ''https://hec.example/services/collector'',
      headers = [(''Authorization'', ''Splunk token'')]\<rparr>"

definition idle :: "nat \<Rightarrow> bytes state" where
  "idle n = \<lparr>zippers = [], wg = 0, calls = n, trace = []\<rparr>"

definition demoRequest :: "bytes \<Rightarrow> request" where
  "demoRequest b =
     \<lparr>req_method = ''POST'', req_url = ''https://hec.example/services/collector'',
      req_header = [], req_body = b\<rparr>"


text \<open>A batch of three log records, the two chunks made of it, and an empty chunk.\<close>

definition demoLogs :: "string list" where
  "demoLogs = [''aaaaaa'', ''bbbbbb'', ''cccccc'']"

definition demoChunk1 :: "(string list) chunk" where
  "demoChunk1 = \<lparr>index = 0, buf = ''aaaaaa'' @ sep @ ''bbbbbb'' @ sep, err = None\<rparr>"

definition demoChunk2 :: "(string list) chunk" where
  "demoChunk2 = \<lparr>index = 2, buf = ''cccccc'' @ sep, err = None\<rparr>"

definition demoEmpty :: "(string list) chunk" where
  "demoEmpty = \<lparr>index = 2, buf = [], err = None\<rparr>"

text \<open>
  The states of a push of the three records that starts in an idle state: before the first
  chunk, after the first chunk was posted, after the second chunk was posted.
\<close>

definition demoState0 :: "bytes state" where
  "demoState0 = \<lparr>zippers = [], wg = 1, calls = 0, trace = [WgAdd, PoolGet, GzReset]\<rparr>"

definition demoState1 :: "bytes state" where
  "demoState1 = snd (postEvents demoEnv demoClient (buf demoChunk1) False demoState0)"

definition demoState2 :: "bytes state" where
  "demoState2 = snd (postEvents demoEnv demoClient (buf demoChunk2) False demoState1)"

text \<open>An environment whose engine fails on every write, and a body above the threshold.\<close>

definition failingGzip :: "(string list, string list, string, string, bytes) env" where
  "failingGzip = demoEnv\<lparr>gzWrite := (\<lambda>w b. (Some ''short write'', w, []))\<rparr>"

definition bigBody :: bytes where
  "bigBody = replicate 1501 (CHR ''a'')"

text \<open>
  A client without a URL, the error for the status 503, a batch of two events with its
  encoded body, and a batch whose second event cannot be encoded.
\<close>

definition noUrlClient :: client where
  "noUrlClient = demoClient\<lparr>url := []\<rparr>"

definition status503 :: "(string list) error" where
  "status503 = Errorf (''HTTP 503 '' @ [CHR 0x22] @ ''Service Unavailable'' @ [CHR 0x22])"

definition demoBatch :: "string list" where
  "demoBatch = [''{}'', ''{}'']"

definition badBatch :: "string list" where
  "badBatch = [''{}'', []]"

definition demoBody :: bytes where
  "demoBody = ''{}'' @ sep @ ''{}'' @ sep"

subsection \<open>Pushes running side by side\<close>

text \<open>
  Pushes run as goroutines on the same client. A schedule is an interleaving of their
  steps: a push enters with \<open>c.wg.Add(1)\<close>, works (any effect on the state that leaves the
  wait group alone), and leaves with the deferred \<open>c.wg.Done()\<close>. \<open>exec\<close> runs a schedule from
  a state and counts the pushes that have entered and not left; only a push that has
  entered can leave, and a step that touches the wait group is no work.
\<close>

datatype 'z action = Enter | Leave | Work "'z state \<Rightarrow> 'z state"

fun exec :: "'z action list \<Rightarrow> nat \<Rightarrow> 'z state \<Rightarrow> (nat \<times> 'z state) option" where
  "exec [] n s = Some (n, s)"
| "exec (Enter # acts) n s = exec acts (Suc n) (wgAdd s)"
| "exec (Leave # acts) n s = (if n = 0 then None else exec acts (n - 1) (wgDone s))"
| "exec (Work f # acts) n s = (if wg (f s) = wg s then exec acts n (f s) else None)"

text \<open>
  The work of each push, between its entering and its leaving: the whole of it for metrics
  and traces (\<open>metricsWork\<close>, \<open>tracesWork\<close>) and for logs (\<open>logsWorkAll\<close>: taking the engine,
  the loop over all chunks, and the deferred calls before \<open>c.wg.Done()\<close>), and for logs also
  the work up to a point of the loop (\<open>logsWork\<close>: taking the engine and handling the given
  chunks).
\<close>

definition metricsWork :: "('m, 't, 'r, 'e, 'z) env \<Rightarrow> client \<Rightarrow> 'm \<Rightarrow> 'z state \<Rightarrow> 'z state" where
  "metricsWork env c md s = snd (metricsBody env c md s)"

definition tracesWork :: "('m, 't, 'r, 'e, 'z) env \<Rightarrow> client \<Rightarrow> 't \<Rightarrow> 'z state \<Rightarrow> 'z state" where
  "tracesWork env c td s = snd (tracesBody env c td s)"

definition logsWork ::
  "('m, 't, 'r, 'e, 'z) env \<Rightarrow> client \<Rightarrow> 'r list \<Rightarrow> ('r list) chunk list \<Rightarrow> 'z state \<Rightarrow> 'z state" where
  "logsWork env c ld chunks s =
     (case poolGet env s of (gzipWriter, s1) \<Rightarrow>
        (case consumeChunks env c ld chunks (gzReset env gzipWriter) [] (emit GzReset s1) of
           (r, w, gzipBuf, s2) \<Rightarrow> s2))"

definition logsWorkAll ::
  "('m, 't, 'r, 'e, 'z) env \<Rightarrow> client \<Rightarrow> 'r list \<Rightarrow> 'z state \<Rightarrow> 'z state" where
  "logsWorkAll env c ld s =
     (case poolGet env s of (gzipWriter, s1) \<Rightarrow>
        (case consumeChunks env c ld (chunkEvents env (config c) ld)
                (gzReset env gzipWriter) [] (emit GzReset s1) of
           (r, w, gzipBuf, s2) \<Rightarrow>
             (case gzClose env w of (closeErr, w1, out) \<Rightarrow>
                poolPut w1 (emit GzClose (emit Cancel s2)))))"

text \<open>
  A schedule in which a push of logs has entered and sent its first chunk, and a push of
  metrics has entered, worked and left; and the state it ends in.
\<close>

definition demoSchedule :: "bytes action list" where
  "demoSchedule =
     [Enter, Work (logsWork demoEnv demoClient demoLogs [demoChunk1]),
      Enter, Work (metricsWork demoEnv demoClient demoBatch), Leave]"

definition demoBusy :: "bytes state" where
  "demoBusy =
     wgDone (metricsWork demoEnv demoClient demoBatch
       (wgAdd (logsWork demoEnv demoClient demoLogs [demoChunk1] (wgAdd (idle 0)))))"

section \<open>Properties\<close>

subsection \<open>Auxiliary facts\<close>

lemma wg_bracket: "wgDone (wgAdd s) = s\<lparr>trace := trace s @ [WgAdd, WgDone]\<rparr>"
  by (simp add: wgDone_def wgAdd_def emit_def)

lemma fmt_q_plain: "\<forall>ch \<in> set t. plainChar ch \<Longrightarrow> fmt_q t = [CHR 0x22] @ t @ [CHR 0x22]"
proof -
  assume a: "\<forall>ch \<in> set t. plainChar ch"
  have "concat (map quoteChar t) = t" using a
    by (induction t) (auto simp: quoteChar_def plainChar_def)
  then show ?thesis by (simp add: fmt_q_def)
qed


subsection \<open>Batches without events\<close>

text \<open>
  C10: when the conversion of a metrics or traces batch yields no event, the push returns the
  count the converter dropped with a nil error, and the only effects are the registration
  with the wait group and its release afterwards: no engine is taken from the pool, nothing
  is encoded and no request is made.
\<close>

theorem push_without_events:
  "(metricDataToSplunk env md = ([], nd) \<longrightarrow>
      pushMetricsData env c md s = ((nd, None), s\<lparr>trace := trace s @ [WgAdd, WgDone]\<rparr>)) \<and>
   (traceDataToSplunk env td = ([], nd') \<longrightarrow>
      pushTraceData env c td s = ((nd', None), s\<lparr>trace := trace s @ [WgAdd, WgDone]\<rparr>))"
  by (simp add: pushMetricsData_def metricsBody_def pushTraceData_def tracesBody_def wg_bracket)

theorem push_without_events_witness:
  "metricDataToSplunk demoEnv [] = ([], 0) \<and>
   traceDataToSplunk demoEnv [] = ([], 0) \<and>
   pushMetricsData demoEnv demoClient [] (idle 0) = ((0, None), (idle 0)\<lparr>trace := [WgAdd, WgDone]\<rparr>) \<and>
   pushTraceData demoEnv demoClient [] (idle 0) = ((0, None), (idle 0)\<lparr>trace := [WgAdd, WgDone]\<rparr>)"
  using push_without_events [of demoEnv "[]" 0 demoClient "idle 0" "[]" 0]
  by (simp add: demoEnv_def idle_def)


subsection \<open>Classification of the response status\<close>

text \<open>
  C5: for every response the HTTP client returns, \<open>postEvents\<close> and \<open>pushMetricsData\<close> succeed
  if and only if the status code is at least 200 and below 300; for every other status the
  error is \<open>fmt.Errorf("HTTP %d %q", code, StatusText(code))\<close>, whose message is the word
  HTTP, the code in decimal and the status text in double quotes.
\<close>

theorem status_classification:
  "(newRequest env c b = Inr req \<and>
    httpDo env (calls s) (withHeaders c compressed req) = Inr resp \<longrightarrow>
      (fst (postEvents env c b compressed s) = None
         \<longleftrightarrow> 200 \<le> StatusCode resp \<and> StatusCode resp < 300) \<and>
      (\<not> (200 \<le> StatusCode resp \<and> StatusCode resp < 300) \<longrightarrow>
         fst (postEvents env c b compressed s) =
           Some (Errorf (''HTTP '' @ fmt_d (StatusCode resp) @ '' ''
                          @ fmt_q (StatusText env (StatusCode resp)))))) \<and>
   (metricDataToSplunk env md = (dps, nd) \<and> dps \<noteq> [] \<and>
    encodeBody env dps (DisableCompression (config c)) (wgAdd s) = ((b', compressed', None), s1) \<and>
    newRequest env c b' = Inr req' \<and>
    httpDo env (calls s1) (withHeaders c compressed' req') = Inr resp' \<longrightarrow>
      (snd (fst (pushMetricsData env c md s)) = None
         \<longleftrightarrow> 200 \<le> StatusCode resp' \<and> StatusCode resp' < 300) \<and>
      (\<not> (200 \<le> StatusCode resp' \<and> StatusCode resp' < 300) \<longrightarrow>
         snd (fst (pushMetricsData env c md s)) =
           Some (Errorf (''HTTP '' @ fmt_d (StatusCode resp') @ '' ''
                          @ fmt_q (StatusText env (StatusCode resp')))))) \<and>
   ((\<forall>ch \<in> set (StatusText env code). plainChar ch) \<longrightarrow>
      ''HTTP '' @ fmt_d code @ '' '' @ fmt_q (StatusText env code)
        = ''HTTP '' @ fmt_d code @ '' '' @ [CHR 0x22] @ StatusText env code @ [CHR 0x22])"
proof (intro conjI impI)
  assume "\<forall>ch \<in> set (StatusText env code). plainChar ch"
  then show "''HTTP '' @ fmt_d code @ '' '' @ fmt_q (StatusText env code)
        = ''HTTP '' @ fmt_d code @ '' '' @ [CHR 0x22] @ StatusText env code @ [CHR 0x22]"
    by (simp add: fmt_q_plain)
qed (auto simp add: postEvents_def clientDo_def statusError_def pushMetricsData_def metricsBody_def)


theorem status_classification_witness:
  "newRequest demoEnv demoClient ''{}'' = Inr (demoRequest ''{}'') \<and>
   httpDo demoEnv (calls (idle 1)) (withHeaders demoClient False (demoRequest ''{}''))
     = Inr \<lparr>StatusCode = 503, Body = []\<rparr> \<and>
   fst (postEvents demoEnv demoClient ''{}'' False (idle 1))
     = Some (Errorf (''HTTP 503 '' @ [CHR 0x22] @ ''Service Unavailable'' @ [CHR 0x22])) \<and>
   metricDataToSplunk demoEnv [''{}''] = ([''{}''], 0) \<and>
   encodeBody demoEnv [''{}''] (DisableCompression (config demoClient)) (wgAdd (idle 1))
     = ((''{}'' @ sep, False, None), wgAdd (idle 1)) \<and>
   newRequest demoEnv demoClient (''{}'' @ sep) = Inr (demoRequest (''{}'' @ sep)) \<and>
   httpDo demoEnv (calls (wgAdd (idle 1))) (withHeaders demoClient False (demoRequest (''{}'' @ sep)))
     = Inr \<lparr>StatusCode = 503, Body = []\<rparr> \<and>
   snd (fst (pushMetricsData demoEnv demoClient [''{}''] (idle 1)))
     = Some (Errorf (''HTTP 503 '' @ [CHR 0x22] @ ''Service Unavailable'' @ [CHR 0x22])) \<and>
   list_all plainChar (StatusText demoEnv 503)"
proof -
  have h1: "newRequest demoEnv demoClient ''{}'' = Inr (demoRequest ''{}'')"
    by (simp add: newRequest_def demoEnv_def demoClient_def demoRequest_def)
  have h2: "httpDo demoEnv (calls (idle 1)) (withHeaders demoClient False (demoRequest ''{}''))
     = Inr \<lparr>StatusCode = 503, Body = []\<rparr>"
    by (simp add: demoEnv_def idle_def)
  have h3: "metricDataToSplunk demoEnv [''{}''] = ([''{}''], 0)"
    by (simp add: demoEnv_def)
  have h4: "encodeBody demoEnv [''{}''] (DisableCompression (config demoClient)) (wgAdd (idle 1))
     = ((''{}'' @ sep, False, None), wgAdd (idle 1))"
    by (simp add: encodeBody_def getReader_def demoEnv_def demoClient_def sep_def)
  have h5: "newRequest demoEnv demoClient (''{}'' @ sep) = Inr (demoRequest (''{}'' @ sep))"
    by (simp add: newRequest_def demoEnv_def demoClient_def demoRequest_def)
  have h6: "httpDo demoEnv (calls (wgAdd (idle 1))) (withHeaders demoClient False (demoRequest (''{}'' @ sep)))
     = Inr \<lparr>StatusCode = 503, Body = []\<rparr>"
    by (simp add: demoEnv_def idle_def wgAdd_def emit_def)
  have h7: "\<forall>ch \<in> set (StatusText demoEnv 503). plainChar ch"
    by (simp add: demoEnv_def plainChar_def)
  have d: "fmt_d 503 = ''503''"
    by code_simp
  from h7 have q: "fmt_q (StatusText demoEnv 503) = [CHR 0x22] @ ''Service Unavailable'' @ [CHR 0x22]"
    by (simp add: fmt_q_plain) (simp add: demoEnv_def)
  show ?thesis
    using h1 h2 h3 h4 h5 h6 h7 d q list_all_iff [of plainChar "StatusText demoEnv 503"]
      status_classification [of demoEnv demoClient "''{}''" "demoRequest ''{}''" "idle 1" False
        "\<lparr>StatusCode = 503, Body = []\<rparr>" "[''{}'']" "[''{}'']" 0 "''{}'' @ sep" False
        "wgAdd (idle 1)" "demoRequest (''{}'' @ sep)" "\<lparr>StatusCode = 503, Body = []\<rparr>" 503]
    by simp
qed

subsection \<open>The chunk loop\<close>

lemma consume_append:
  "consumeChunks env c ld (xs @ ys) w gb s =
     (case consumeChunks env c ld xs w gb s of
        (None, w1, gb1, s1) \<Rightarrow> consumeChunks env c ld ys w1 gb1 s1
      | (Some r, w1, gb1, s1) \<Rightarrow> (Some r, w1, gb1, s1))"
  by (induction xs arbitrary: w gb s) (auto split: option.splits prod.splits)

lemma chunkLoop_records:
  "concat (map snd (chunkLoop enc mx st pend acc rs)) = pend @ rs"
  by (induction rs arbitrary: st pend acc) (auto split: sum.splits)

lemma chunkLoop_index:
  "chunkLoop enc mx st pend acc rs = pre @ (ch, g) # post \<Longrightarrow>
     index ch = st + length (concat (map snd pre))"
proof (induction rs arbitrary: st pend acc pre)
  case Nil
  then show ?case by (cases pre) auto
next
  case (Cons r rs)
  show ?case
  proof (cases "enc r")
    case (Inl m)
    with Cons.prems show ?thesis by (cases pre) auto
  next
    case (Inr js)
    show ?thesis
    proof (cases "acc \<noteq> [] \<and> length acc + length (js @ sep) > mx")
      case True
      with Inr Cons.prems have eq:
        "(\<lparr>index = st, buf = acc, err = None\<rparr>, pend)
           # chunkLoop enc mx (st + length pend) [r] (js @ sep) rs = pre @ (ch, g) # post"
        by simp
      show ?thesis
      proof (cases pre)
        case Nil
        with eq show ?thesis by auto
      next
        case (Cons p pre')
        with eq have p: "p = (\<lparr>index = st, buf = acc, err = None\<rparr>, pend)"
          and rest: "chunkLoop enc mx (st + length pend) [r] (js @ sep) rs = pre' @ (ch, g) # post"
          by auto
        from Cons.IH [OF rest] p Cons show ?thesis by simp
      qed
    next
      case False
      with Inr Cons.prems have "chunkLoop enc mx st (pend @ [r]) (acc @ js @ sep) rs = pre @ (ch, g) # post"
        by auto
      from Cons.IH [OF this] show ?thesis .
    qed
  qed
qed

lemma framed_snoc: "enc r = Inr js \<Longrightarrow> framed enc (pend @ [r]) = framed enc pend @ js @ sep"
  by (simp add: framed_def jsonOf_def)

lemma chunkLoop_buf:
  "acc = framed enc pend \<Longrightarrow> (ch, g) \<in> set (chunkLoop enc mx st pend acc rs) \<Longrightarrow>
     err ch = None \<Longrightarrow> buf ch = framed enc g"
proof (induction rs arbitrary: st pend acc)
  case Nil
  then show ?case by auto
next
  case (Cons r rs)
  show ?case
  proof (cases "enc r")
    case (Inl m)
    with Cons.prems show ?thesis by auto
  next
    case (Inr js)
    have one: "js @ sep = framed enc [r]" using Inr by (simp add: framed_def jsonOf_def)
    show ?thesis
    proof (cases "acc \<noteq> [] \<and> length acc + length (js @ sep) > mx")
      case True
      with Inr Cons.prems(2) have
        "(ch, g) = (\<lparr>index = st, buf = acc, err = None\<rparr>, pend) \<or>
         (ch, g) \<in> set (chunkLoop enc mx (st + length pend) [r] (js @ sep) rs)"
        by auto
      then show ?thesis
      proof
        assume "(ch, g) = (\<lparr>index = st, buf = acc, err = None\<rparr>, pend)"
        with Cons.prems(1) show ?thesis by simp
      next
        assume "(ch, g) \<in> set (chunkLoop enc mx (st + length pend) [r] (js @ sep) rs)"
        from Cons.IH [OF one this Cons.prems(3)] show ?thesis .
      qed
    next
      case False
      with Inr Cons.prems(2) have m: "(ch, g) \<in> set (chunkLoop enc mx st (pend @ [r]) (acc @ js @ sep) rs)"
        by auto
      have "acc @ js @ sep = framed enc (pend @ [r])"
        using Cons.prems(1) Inr by (simp add: framed_snoc)
      from Cons.IH [OF this m Cons.prems(3)] show ?thesis .
    qed
  qed
qed


lemma requests_append: "requests (xs @ ys) = requests xs @ requests ys"
  by (induction xs rule: requests.induct) auto

lemma trace_pushLogDeferred:
  "trace (pushLogDeferred env w s) = trace s @ [Cancel, GzClose, PoolPut, WgDone]"
  by (simp add: pushLogDeferred_def wgDone_def poolPut_def emit_def split: prod.splits)

text \<open>
  C9: a chunk that carries no error and whose buffer has length zero is skipped. Handling it
  changes nothing (no request, no engine call, no count), and a chunk sequence gives the same
  result and the same final state with and without it, wherever it stands.
\<close>

theorem empty_chunk_skipped:
  "err chunk = None \<and> length (buf chunk) = 0 \<longrightarrow>
     consumeChunks env c ld [chunk] w gb s = (None, w, gb, s) \<and>
     consumeChunks env c ld (pre @ chunk # rest) w gb s = consumeChunks env c ld (pre @ rest) w gb s"
proof (intro impI)
  assume a: "err chunk = None \<and> length (buf chunk) = 0"
  then have skip: "consumeChunks env c ld (chunk # ys) w' gb' s' = consumeChunks env c ld ys w' gb' s'"
    for ys w' gb' s'
    by simp
  have "consumeChunks env c ld (pre @ chunk # rest) w gb s = consumeChunks env c ld (pre @ rest) w gb s"
    by (simp only: consume_append [of env c ld pre] skip)
  moreover have "consumeChunks env c ld [chunk] w gb s = (None, w, gb, s)"
    by (simp only: skip consumeChunks.simps(1))
  ultimately show "consumeChunks env c ld [chunk] w gb s = (None, w, gb, s) \<and>
     consumeChunks env c ld (pre @ chunk # rest) w gb s = consumeChunks env c ld (pre @ rest) w gb s"
    by simp
qed

theorem empty_chunk_skipped_witness:
  "err demoEmpty = None \<and> length (buf demoEmpty) = 0 \<and>
   consumeChunks demoEnv demoClient demoLogs [demoEmpty] [] [] (idle 0) = (None, [], [], idle 0) \<and>
   consumeChunks demoEnv demoClient demoLogs ([demoChunk1] @ demoEmpty # [demoChunk2]) [] [] (idle 0)
     = consumeChunks demoEnv demoClient demoLogs ([demoChunk1] @ [demoChunk2]) [] [] (idle 0) \<and>
   fst (consumeChunks demoEnv demoClient demoLogs ([demoChunk1] @ demoEmpty # [demoChunk2]) [] [] (idle 0))
     = Some (1, PartialLogsError
                  (Errorf (''HTTP 503 '' @ [CHR 0x22] @ ''Service Unavailable'' @ [CHR 0x22]))
                  [''cccccc''])"
proof -
  have h: "err demoEmpty = None \<and> length (buf demoEmpty) = 0"
    by (simp add: demoEmpty_def)
  have v: "fst (consumeChunks demoEnv demoClient demoLogs ([demoChunk1] @ [demoChunk2]) [] [] (idle 0))
     = Some (1, PartialLogsError
                  (Errorf (''HTTP 503 '' @ [CHR 0x22] @ ''Service Unavailable'' @ [CHR 0x22]))
                  [''cccccc''])"
    by code_simp
  show ?thesis
    using h v empty_chunk_skipped [of demoEmpty demoEnv demoClient demoLogs "[]" "[]" "idle 0"
        "[demoChunk1]" "[demoChunk2]"]
    by simp
qed

text \<open>
  C1: let the chunks of a batch be \<open>pre\<close>, then \<open>ch\<close>, then \<open>post\<close>, let the chunks of \<open>pre\<close> be
  handled without a return, and let the post of \<open>ch\<close> fail with \<open>e\<close> (sent as it is, or written
  to the engine, flushed and sent compressed). Then \<open>pushLogData\<close> returns at once: the count is
  \<open>numLogs\<close> at the index of \<open>ch\<close>, the error is the partial-failure error of \<open>e\<close> with
  \<open>subLogs\<close> at that index, and the deferred calls make no request, so no chunk of \<open>post\<close> is
  sent. The sub-batch is made of the records of \<open>ch\<close> and of the chunks after it, in order,
  the count is their number, the records of the chunks before \<open>ch\<close> are the rest of the batch,
  and the buffer of \<open>ch\<close> is the serialization of its records.
\<close>

theorem logs_partial_failure:
  assumes chunks: "chunkRecords env (config c) ld = pre @ (ch, rs) # post"
    and init: "pushLogStart env s = (w0, b0, s0)"
    and reach: "consumeChunks env c ld (map fst pre) w0 b0 s0 = (None, w1, b1, s1)"
    and ready: "err ch = None \<and> buf ch \<noteq> []"
    and fail:
      "(\<not> (\<not> DisableCompression (config c) \<and> 1500 < length (buf ch)) \<and>
          postEvents env c (buf ch) False s1 = (Some e, s2) \<and> w2 = w1 \<and> b2 = b1) \<or>
       (\<not> DisableCompression (config c) \<and> 1500 < length (buf ch) \<and>
          gzWrite env w1 (buf ch) = (None, w', out) \<and> gzFlush env w' = (flushErr, w2, out2) \<and>
          b2 = b1 @ out @ out2 \<and>
          postEvents env c b2 True (emit GzFlush (emit (GzWrite (buf ch)) s1)) = (Some e, s2))"
  shows "pushLogData env c ld s =
           ((numLogs ld (index ch), Some (PartialLogsError e (subLogs ld (index ch)))),
            pushLogDeferred env w2 s2) \<and>
         requests (trace (pushLogDeferred env w2 s2)) = requests (trace s2) \<and>
         numLogs ld (index ch) = int (length (concat (map snd ((ch, rs) # post)))) \<and>
         subLogs ld (index ch) = concat (map snd ((ch, rs) # post)) \<and>
         concat (map snd pre) @ subLogs ld (index ch) = ld \<and>
         buf ch = framed (logEncode env) rs"
proof -
  have step: "consumeChunks env c ld (ch # map fst post) w1 b1 s1 =
      (Some (numLogs ld (index ch), PartialLogsError e (subLogs ld (index ch))), w2, b2, s2)"
    using ready fail by auto
  have loop: "consumeChunks env c ld (chunkEvents env (config c) ld) w0 b0 s0 =
      (Some (numLogs ld (index ch), PartialLogsError e (subLogs ld (index ch))), w2, b2, s2)"
    unfolding chunkEvents_def chunks
    by (simp only: map_append list.map fst_conv consume_append [of env c ld "map fst pre"] reach
                   prod.case option.case step)
  have push: "pushLogData env c ld s =
           ((numLogs ld (index ch), Some (PartialLogsError e (subLogs ld (index ch)))),
            pushLogDeferred env w2 s2)"
    by (simp add: pushLogData_def init loop)
  have reqs: "requests (trace (pushLogDeferred env w2 s2)) = requests (trace s2)"
    by (simp add: trace_pushLogDeferred requests_append)
  have all: "concat (map snd (pre @ (ch, rs) # post)) = ld"
    using chunkLoop_records [of "logEncode env" "MaxContentLength (config c)" 0 "[]" "[]" ld] chunks
    by (simp add: chunkRecords_def)
  have idx: "index ch = length (concat (map snd pre))"
    using chunkLoop_index [of "logEncode env" "MaxContentLength (config c)" 0 "[]" "[]" ld pre ch rs post]
      chunks
    by (simp add: chunkRecords_def)
  have sub: "subLogs ld (index ch) = concat (map snd ((ch, rs) # post))"
    unfolding subLogs_def idx using all by (metis append_eq_conv_conj concat_append map_append)
  have num: "numLogs ld (index ch) = int (length (concat (map snd ((ch, rs) # post))))"
  proof -
    have "length (subLogs ld (index ch)) = length ld - index ch"
      by (simp add: subLogs_def)
    with sub show ?thesis by (simp add: numLogs_def)
  qed
  have whole: "concat (map snd pre) @ subLogs ld (index ch) = ld"
    using all sub by simp
  have "(ch, rs) \<in> set (chunkLoop (logEncode env) (MaxContentLength (config c)) 0 [] [] ld)"
    using chunks by (simp add: chunkRecords_def)
  then have bf: "buf ch = framed (logEncode env) rs"
    using chunkLoop_buf [of "[]" "logEncode env" "[]" ch rs "MaxContentLength (config c)" 0 ld] ready
    by (simp add: framed_def)
  from push reqs num sub whole bf show ?thesis by simp
qed

theorem logs_partial_failure_witness:
  "chunkRecords demoEnv (config demoClient) demoLogs
     = [(demoChunk1, [''aaaaaa'', ''bbbbbb''])] @ (demoChunk2, [''cccccc'']) # [] \<and>
   pushLogStart demoEnv (idle 0) = ([], [], demoState0) \<and>
   consumeChunks demoEnv demoClient demoLogs (map fst [(demoChunk1, [''aaaaaa'', ''bbbbbb''])])
       [] [] demoState0 = (None, [], [], demoState1) \<and>
   err demoChunk2 = None \<and> buf demoChunk2 \<noteq> [] \<and>
   \<not> (\<not> DisableCompression (config demoClient) \<and> 1500 < length (buf demoChunk2)) \<and>
   postEvents demoEnv demoClient (buf demoChunk2) False demoState1
     = (Some (Errorf (''HTTP 503 '' @ [CHR 0x22] @ ''Service Unavailable'' @ [CHR 0x22])),
        demoState2) \<and>
   pushLogData demoEnv demoClient demoLogs (idle 0)
     = ((1, Some (PartialLogsError
                   (Errorf (''HTTP 503 '' @ [CHR 0x22] @ ''Service Unavailable'' @ [CHR 0x22]))
                   [''cccccc''])),
        pushLogDeferred demoEnv [] demoState2) \<and>
   length (requests (trace (pushLogDeferred demoEnv [] demoState2))) = 2 \<and>
   buf demoChunk2 = framed (logEncode demoEnv) [''cccccc'']"
proof -
  have h1: "chunkRecords demoEnv (config demoClient) demoLogs
     = [(demoChunk1, [''aaaaaa'', ''bbbbbb''])] @ (demoChunk2, [''cccccc'']) # []"
    by code_simp
  have h2: "pushLogStart demoEnv (idle 0) = ([], [], demoState0)"
    by code_simp
  have h3: "consumeChunks demoEnv demoClient demoLogs (map fst [(demoChunk1, [''aaaaaa'', ''bbbbbb''])])
       [] [] demoState0 = (None, [], [], demoState1)"
    by code_simp
  have h4: "err demoChunk2 = None \<and> buf demoChunk2 \<noteq> []"
    by code_simp
  have h5: "\<not> (\<not> DisableCompression (config demoClient) \<and> 1500 < length (buf demoChunk2))"
    by code_simp
  have h6: "postEvents demoEnv demoClient (buf demoChunk2) False demoState1
     = (Some (Errorf (''HTTP 503 '' @ [CHR 0x22] @ ''Service Unavailable'' @ [CHR 0x22])),
        demoState2)"
    by code_simp
  have h7: "length (requests (trace demoState2)) = 2"
    by code_simp
  have h8: "numLogs demoLogs (index demoChunk2) = 1 \<and> subLogs demoLogs (index demoChunk2) = [''cccccc'']"
    by code_simp
  show ?thesis
    using h1 h2 h3 h4 h5 h6 h7 h8
      logs_partial_failure [of demoEnv demoClient demoLogs "[(demoChunk1, [''aaaaaa'', ''bbbbbb''])]"
        demoChunk2 "[''cccccc'']" "[]" "idle 0" "[]" "[]" demoState0 "[]" "[]" demoState1
        "Errorf (''HTTP 503 '' @ [CHR 0x22] @ ''Service Unavailable'' @ [CHR 0x22])" demoState2
        "[]" "[]"]
    by simp
qed

subsection \<open>Invariants of the trace\<close>

lemma run_append:
  "run step q (xs @ ys) = (case run step q xs of None \<Rightarrow> None | Some q' \<Rightarrow> run step q' ys)"
  by (induction xs arbitrary: q) (auto split: option.splits)

lemma trace_emit [simp]: "trace (emit ev s) = trace s @ [ev]"
  by (simp add: emit_def)

lemma zippers_emit [simp]: "zippers (emit ev s) = zippers s"
  by (simp add: emit_def)

lemma postEvents_released:
  "postEvents env c b gz s = (e, s1) \<Longrightarrow> bodiesReleased (trace s) \<Longrightarrow> bodiesReleased (trace s1)"
  by (auto simp: postEvents_def clientDo_def bodiesReleased_def run_append
           split: sum.splits if_splits)

lemma postEvents_engine:
  "postEvents env c b gz s = (e, s1) \<Longrightarrow> run engineStep q0 (trace s) = Some q \<Longrightarrow>
     run engineStep q0 (trace s1) = Some q"
  by (auto simp: postEvents_def clientDo_def run_append split: sum.splits if_splits)

lemma postEvents_zippers:
  "postEvents env c b gz s = (e, s1) \<Longrightarrow> zippers s1 = zippers s"
  by (auto simp: postEvents_def clientDo_def split: sum.splits if_splits)

lemma consume_released:
  "consumeChunks env c ld chunks w gb s = (r, w1, gb1, s1) \<Longrightarrow> bodiesReleased (trace s) \<Longrightarrow>
     bodiesReleased (trace s1)"
proof (induction chunks arbitrary: w gb s)
  case Nil
  then show ?case by simp
next
  case (Cons chunk rest)
  have ext: "bodiesReleased (trace (emit ev s'))" if "bodiesReleased (trace s')"
    and "ev = GzFlush \<or> ev = GzReset \<or> (\<exists>x. ev = GzWrite x)" for ev s'
    using that by (auto simp: bodiesReleased_def run_append)
  from Cons.prems show ?case
    by (auto split: option.splits if_splits prod.splits
             dest!: postEvents_released intro!: ext elim!: Cons.IH)
qed


lemma consume_engine:
  "consumeChunks env c ld chunks w gb s = (r, w1, gb1, s1) \<Longrightarrow>
     run engineStep Idle (trace s) = Some Ready \<Longrightarrow> run engineStep Idle (trace s1) = Some Ready"
proof (induction chunks arbitrary: w gb s)
  case Nil
  then show ?case by simp
next
  case (Cons chunk rest)
  have ext: "run engineStep Idle (trace (emit ev s')) = Some Ready"
    if "run engineStep Idle (trace s') = Some Ready"
    and "ev = GzFlush \<or> ev = GzReset \<or> (\<exists>x. ev = GzWrite x)" for ev s'
    using that by (auto simp: run_append)
  from Cons.prems show ?case
    by (auto split: option.splits if_splits prod.splits
             dest!: postEvents_engine intro!: ext elim!: Cons.IH)
qed

lemma consume_zippers:
  "consumeChunks env c ld chunks w gb s = (r, w1, gb1, s1) \<Longrightarrow> zippers s1 = zippers s"
proof (induction chunks arbitrary: w gb s)
  case Nil
  then show ?case by simp
next
  case (Cons chunk rest)
  from Cons.prems show ?case
    by (auto split: option.splits if_splits prod.splits dest!: postEvents_zippers Cons.IH)
qed

lemma getReader_disciplined:
  "disciplined (trace s) \<Longrightarrow> disciplined (trace (snd (getReader env b dis s)))"
  by (auto simp: getReader_def poolGet_def poolPut_def disciplined_def run_append
           split: list.splits option.splits prod.splits)

lemma getReader_zippers:
  "length (zippers s) \<le> length (zippers (snd (getReader env b dis s)))"
  by (auto simp: getReader_def poolGet_def poolPut_def split: list.splits option.splits prod.splits)

lemma getReader_released:
  "bodiesReleased (trace s) \<Longrightarrow> bodiesReleased (trace (snd (getReader env b dis s)))"
  by (auto simp: getReader_def poolGet_def poolPut_def bodiesReleased_def run_append
           split: list.splits option.splits prod.splits)

lemma pushLogData_disciplined:
  assumes "disciplined (trace s)"
  shows "disciplined (trace (snd (pushLogData env c ld s)))"
proof -
  obtain w0 b0 s0 where init: "pushLogStart env s = (w0, b0, s0)"
    by (cases "pushLogStart env s") auto
  obtain r w1 b1 s1 where loop:
    "consumeChunks env c ld (chunkEvents env (config c) ld) w0 b0 s0 = (r, w1, b1, s1)"
    by (cases "consumeChunks env c ld (chunkEvents env (config c) ld) w0 b0 s0") auto
  have "run engineStep Idle (trace s0) = Some Ready"
    using init assms
    by (auto simp: pushLogStart_def poolGet_def wgAdd_def disciplined_def run_append
             split: list.splits)
  from consume_engine [OF loop this] have "run engineStep Idle (trace s1) = Some Ready" .
  then have "disciplined (trace (pushLogDeferred env w1 s1))"
    by (auto simp: pushLogDeferred_def wgDone_def poolPut_def disciplined_def run_append
             split: prod.splits)
  then show ?thesis by (simp add: pushLogData_def init loop)
qed

lemma pushLogData_zippers:
  "length (zippers s) \<le> length (zippers (snd (pushLogData env c ld s)))"
proof -
  obtain w0 b0 s0 where init: "pushLogStart env s = (w0, b0, s0)"
    by (cases "pushLogStart env s") auto
  obtain r w1 b1 s1 where loop:
    "consumeChunks env c ld (chunkEvents env (config c) ld) w0 b0 s0 = (r, w1, b1, s1)"
    by (cases "consumeChunks env c ld (chunkEvents env (config c) ld) w0 b0 s0") auto
  have "length (zippers s) \<le> Suc (length (zippers s0))"
    using init by (auto simp: pushLogStart_def poolGet_def wgAdd_def emit_def split: list.splits)
  moreover have "zippers s1 = zippers s0" using consume_zippers [OF loop] .
  moreover have "length (zippers (pushLogDeferred env w1 s1)) = Suc (length (zippers s1))"
    by (auto simp: pushLogDeferred_def wgDone_def poolPut_def emit_def split: prod.splits)
  ultimately show ?thesis by (simp add: pushLogData_def init loop)
qed

lemma pushLogData_released:
  assumes "bodiesReleased (trace s)"
  shows "bodiesReleased (trace (snd (pushLogData env c ld s)))"
proof -
  obtain w0 b0 s0 where init: "pushLogStart env s = (w0, b0, s0)"
    by (cases "pushLogStart env s") auto
  obtain r w1 b1 s1 where loop:
    "consumeChunks env c ld (chunkEvents env (config c) ld) w0 b0 s0 = (r, w1, b1, s1)"
    by (cases "consumeChunks env c ld (chunkEvents env (config c) ld) w0 b0 s0") auto
  have "bodiesReleased (trace s0)"
    using init assms
    by (auto simp: pushLogStart_def poolGet_def wgAdd_def bodiesReleased_def run_append
             split: list.splits)
  from consume_released [OF loop this] have "bodiesReleased (trace s1)" .
  then have "bodiesReleased (trace (pushLogDeferred env w1 s1))"
    by (auto simp: pushLogDeferred_def wgDone_def poolPut_def bodiesReleased_def run_append
             split: prod.splits)
  then show ?thesis by (simp add: pushLogData_def init loop)
qed


lemma disciplined_emit:
  "disciplined (trace s) \<Longrightarrow>
     ev \<in> {WgAdd, WgDone, WgWait, Cancel, BodyDrain, BodyClose} \<or> (\<exists>req r. ev = HttpDo req r) \<Longrightarrow>
     disciplined (trace (emit ev s))"
  by (auto simp: disciplined_def run_append)

lemma encodeBody_disciplined:
  "encodeBody env dps dis s = (r, s1) \<Longrightarrow> disciplined (trace s) \<Longrightarrow> disciplined (trace s1)"
  using getReader_disciplined [of s env _ dis]
  by (auto simp: encodeBody_def split: sum.splits) (metis snd_conv)

lemma encodeBodyEvents_disciplined:
  "encodeBodyEvents env evs dis s = (r, s1) \<Longrightarrow> disciplined (trace s) \<Longrightarrow> disciplined (trace s1)"
  using getReader_disciplined [of s env _ dis]
  by (auto simp: encodeBodyEvents_def split: sum.splits) (metis snd_conv)

lemma encodeBody_released:
  "encodeBody env dps dis s = (r, s1) \<Longrightarrow> bodiesReleased (trace s) \<Longrightarrow> bodiesReleased (trace s1)"
  using getReader_released [of s env _ dis]
  by (auto simp: encodeBody_def split: sum.splits) (metis snd_conv)

lemma encodeBodyEvents_released:
  "encodeBodyEvents env evs dis s = (r, s1) \<Longrightarrow> bodiesReleased (trace s) \<Longrightarrow> bodiesReleased (trace s1)"
  using getReader_released [of s env _ dis]
  by (auto simp: encodeBodyEvents_def split: sum.splits) (metis snd_conv)

lemma postEvents_disciplined:
  "postEvents env c b gz s = (e, s1) \<Longrightarrow> disciplined (trace s) \<Longrightarrow> disciplined (trace s1)"
  unfolding disciplined_def by (rule postEvents_engine)

lemma wgAdd_trace [simp]: "trace (wgAdd s) = trace s @ [WgAdd]"
  by (simp add: wgAdd_def)

lemma wgDone_trace [simp]: "trace (wgDone s) = trace s @ [WgDone]"
  by (simp add: wgDone_def)

lemma disciplined_snoc:
  "disciplined t \<Longrightarrow>
     ev \<in> {WgAdd, WgDone, WgWait, Cancel, BodyDrain, BodyClose} \<or> (\<exists>req r. ev = HttpDo req r) \<Longrightarrow>
     disciplined (t @ [ev])"
  by (auto simp: disciplined_def run_append)

lemma released_snoc:
  "bodiesReleased t \<Longrightarrow>
     ev \<in> {WgAdd, WgDone, WgWait, Cancel, PoolGet, PoolPut, GzReset, GzFlush, GzClose}
       \<or> (\<exists>x. ev = GzWrite x) \<Longrightarrow>
     bodiesReleased (t @ [ev])"
  by (auto simp: bodiesReleased_def run_append)

lemma metricsBody_disciplined:
  "metricsBody env c md s = (r, s1) \<Longrightarrow> disciplined (trace s) \<Longrightarrow> disciplined (trace s1)"
  by (auto simp: metricsBody_def clientDo_def disciplined_def run_append
           split: prod.splits if_splits option.splits sum.splits
           dest!: encodeBody_disciplined [unfolded disciplined_def])

lemma metricsBody_released:
  "metricsBody env c md s = (r, s1) \<Longrightarrow> bodiesReleased (trace s) \<Longrightarrow> bodiesReleased (trace s1)"
  by (auto simp: metricsBody_def clientDo_def bodiesReleased_def run_append
           split: prod.splits if_splits option.splits sum.splits
           dest!: encodeBody_released [unfolded bodiesReleased_def])

lemma tracesBody_disciplined:
  "tracesBody env c td s = (r, s1) \<Longrightarrow> disciplined (trace s) \<Longrightarrow> disciplined (trace s1)"
  by (auto simp: tracesBody_def sendSplunkEvents_def
           split: prod.splits if_splits option.splits
           dest!: encodeBodyEvents_disciplined postEvents_disciplined)

lemma tracesBody_released:
  "tracesBody env c td s = (r, s1) \<Longrightarrow> bodiesReleased (trace s) \<Longrightarrow> bodiesReleased (trace s1)"
  by (auto simp: tracesBody_def sendSplunkEvents_def
           split: prod.splits if_splits option.splits
           dest!: encodeBodyEvents_released postEvents_released)

lemma pushMetricsData_disciplined:
  "disciplined (trace s) \<Longrightarrow> disciplined (trace (snd (pushMetricsData env c md s)))"
  by (auto simp: pushMetricsData_def split: prod.splits
           intro!: disciplined_snoc dest!: metricsBody_disciplined)

lemma pushTraceData_disciplined:
  "disciplined (trace s) \<Longrightarrow> disciplined (trace (snd (pushTraceData env c td s)))"
  by (auto simp: pushTraceData_def split: prod.splits
           intro!: disciplined_snoc dest!: tracesBody_disciplined)

lemma pushMetricsData_released:
  "bodiesReleased (trace s) \<Longrightarrow> bodiesReleased (trace (snd (pushMetricsData env c md s)))"
  by (auto simp: pushMetricsData_def split: prod.splits
           intro!: released_snoc dest!: metricsBody_released)

lemma pushTraceData_released:
  "bodiesReleased (trace s) \<Longrightarrow> bodiesReleased (trace (snd (pushTraceData env c td s)))"
  by (auto simp: pushTraceData_def split: prod.splits
           intro!: released_snoc dest!: tracesBody_released)

text \<open>
  C7: whatever the environment does (so also when the engine fails on write or on close, and
  on every early return of \<open>pushLogData\<close>), an operation that starts with the engine in the
  pool takes it, resets it before it writes to it, flushes it or closes it, and has put it
  back when it returns; the pool has at least as many engines afterwards as before.
\<close>

theorem engine_discipline:
  "disciplined (trace s) \<longrightarrow>
     disciplined (trace (snd (getReader env b dis s))) \<and>
     length (zippers s) \<le> length (zippers (snd (getReader env b dis s))) \<and>
     disciplined (trace (snd (pushLogData env c ld s))) \<and>
     length (zippers s) \<le> length (zippers (snd (pushLogData env c ld s))) \<and>
     disciplined (trace (snd (pushMetricsData env c md s))) \<and>
     disciplined (trace (snd (pushTraceData env c td s)))"
  by (simp add: getReader_disciplined getReader_zippers pushLogData_disciplined
        pushLogData_zippers pushMetricsData_disciplined pushTraceData_disciplined)

theorem engine_discipline_witness:
  "disciplined (trace (idle 0)) \<and>
   trace (snd (getReader failingGzip bigBody False (idle 0)))
     = [PoolGet, GzReset, GzWrite bigBody, PoolPut] \<and>
   fst (getReader failingGzip bigBody False (idle 0)) = (bigBody, False, Some (Opaque ''short write'')) \<and>
   disciplined (trace (snd (getReader failingGzip bigBody False (idle 0)))) \<and>
   length (zippers (snd (getReader failingGzip bigBody False (idle 0)))) = 1 \<and>
   trace (snd (pushLogData failingGzip demoClient [bigBody] (idle 0)))
     = [WgAdd, PoolGet, GzReset, GzWrite (bigBody @ sep), Cancel, GzClose, PoolPut, WgDone] \<and>
   disciplined (trace (snd (pushLogData failingGzip demoClient [bigBody] (idle 0)))) \<and>
   disciplined (trace (snd (pushMetricsData failingGzip demoClient [bigBody] (idle 0)))) \<and>
   disciplined (trace (snd (pushTraceData failingGzip demoClient [bigBody] (idle 0))))"
proof -
  have h: "disciplined (trace (idle 0))"
    by (simp add: idle_def disciplined_def)
  have len: "length bigBody = 1501" "bigBody \<noteq> []"
    by (auto simp: bigBody_def)
  have g: "getReader failingGzip bigBody False (idle 0)
      = ((bigBody, False, Some (Opaque ''short write'')),
         \<lparr>zippers = [[]], wg = 0, calls = 0, trace = [PoolGet, GzReset, GzWrite bigBody, PoolPut]\<rparr>)"
    by (simp add: getReader_def len poolGet_def poolPut_def emit_def idle_def failingGzip_def
          demoEnv_def)
  have l: "trace (snd (pushLogData failingGzip demoClient [bigBody] (idle 0)))
     = [WgAdd, PoolGet, GzReset, GzWrite (bigBody @ sep), Cancel, GzClose, PoolPut, WgDone]"
    by (simp add: pushLogData_def pushLogStart_def pushLogDeferred_def chunkEvents_def
          chunkRecords_def len poolGet_def poolPut_def wgAdd_def wgDone_def emit_def idle_def
          failingGzip_def demoEnv_def demoClient_def)
  show ?thesis
    using h g l
      engine_discipline [of "idle 0" failingGzip bigBody False demoClient "[bigBody]" "[bigBody]"
        "[bigBody]"]
    by simp
qed

text \<open>
  C8: whenever the HTTP client returns a response, the next two effects are the draining and
  the closing of its body, whatever its status code; no push and no post returns with a
  response body unread or open.
\<close>

theorem response_body_released:
  "(bodiesReleased (trace s) \<longrightarrow>
      bodiesReleased (trace (snd (postEvents env c b gz s))) \<and>
      bodiesReleased (trace (snd (pushMetricsData env c md s))) \<and>
      bodiesReleased (trace (snd (pushTraceData env c td s))) \<and>
      bodiesReleased (trace (snd (pushLogData env c ld s)))) \<and>
   (newRequest env c b = Inr req \<and> httpDo env (calls s) (withHeaders c gz req) = Inr resp \<longrightarrow>
      trace (snd (postEvents env c b gz s))
        = trace s @ [HttpDo (withHeaders c gz req) (Inr resp), BodyDrain, BodyClose])"
proof -
  have "bodiesReleased (trace (snd (postEvents env c b gz s)))" if "bodiesReleased (trace s)"
    using postEvents_released [of env c b gz s] that
    by (cases "postEvents env c b gz s") auto
  then show ?thesis
    by (auto simp: pushMetricsData_released pushTraceData_released pushLogData_released
          postEvents_def clientDo_def)
qed

theorem response_body_released_witness:
  "bodiesReleased (trace (idle 1)) \<and>
   newRequest demoEnv demoClient ''{}'' = Inr (demoRequest ''{}'') \<and>
   httpDo demoEnv (calls (idle 1)) (withHeaders demoClient False (demoRequest ''{}''))
     = Inr \<lparr>StatusCode = 503, Body = []\<rparr> \<and>
   trace (snd (postEvents demoEnv demoClient ''{}'' False (idle 1)))
     = [HttpDo (withHeaders demoClient False (demoRequest ''{}'')) (Inr \<lparr>StatusCode = 503, Body = []\<rparr>),
        BodyDrain, BodyClose] \<and>
   bodiesReleased (trace (snd (postEvents demoEnv demoClient ''{}'' False (idle 1)))) \<and>
   bodiesReleased (trace (snd (pushMetricsData demoEnv demoClient [''{}''] (idle 1)))) \<and>
   bodiesReleased (trace (snd (pushTraceData demoEnv demoClient [''{}''] (idle 1)))) \<and>
   bodiesReleased (trace (snd (pushLogData demoEnv demoClient demoLogs (idle 1))))"
proof -
  have h0: "bodiesReleased (trace (idle 1))" "trace (idle 1) = []"
    by (simp_all add: idle_def bodiesReleased_def)
  have h1: "newRequest demoEnv demoClient ''{}'' = Inr (demoRequest ''{}'')"
    by (simp add: newRequest_def demoEnv_def demoClient_def demoRequest_def)
  have h2: "httpDo demoEnv (calls (idle 1)) (withHeaders demoClient False (demoRequest ''{}''))
     = Inr \<lparr>StatusCode = 503, Body = []\<rparr>"
    by (simp add: demoEnv_def idle_def)
  show ?thesis
    using h0 h1 h2
      response_body_released [of "idle 1" demoEnv demoClient "''{}''" False "[''{}'']" "[''{}'']"
        demoLogs "demoRequest ''{}''" "\<lparr>StatusCode = 503, Body = []\<rparr>"]
    by (simp add: bodiesReleased_def)
qed

subsection \<open>Outcomes of pushing metrics and traces\<close>

text \<open>
  C4: for a metrics or traces batch with at least one event: when the encoding of the body
  fails or the request cannot be built, the push returns the full count of data points or
  spans with a permanent error; when the HTTP client fails or the status is outside 2XX, it
  returns the full count with an error that is not permanent; otherwise it returns the count
  the converter dropped and no error. For every batch, the count returned with a nil error
  is the count the converter dropped, and the count returned with an error is the full
  count. The full count of a metrics batch is the number of its data points, the second
  result of \<open>MetricAndDataPointCount\<close>; the full count of a traces batch is \<open>SpanCount\<close>.
\<close>

theorem push_outcomes:
  "(metricDataToSplunk env md = (dps, nd) \<and> dps \<noteq> [] \<longrightarrow>
      (encodeBody env dps (DisableCompression (config c)) (wgAdd s) = ((b, gz, Some e), s1) \<longrightarrow>
         fst (pushMetricsData env c md s) = (snd (MetricAndDataPointCount env md), Some (Permanent e))) \<and>
      (encodeBody env dps (DisableCompression (config c)) (wgAdd s) = ((b, gz, None), s1) \<and>
       newRequest env c b = Inl m \<longrightarrow>
         fst (pushMetricsData env c md s) = (snd (MetricAndDataPointCount env md), Some (Permanent (Opaque m)))) \<and>
      (encodeBody env dps (DisableCompression (config c)) (wgAdd s) = ((b, gz, None), s1) \<and>
       newRequest env c b = Inr req \<and> httpDo env (calls s1) (withHeaders c gz req) = Inl m \<longrightarrow>
         fst (pushMetricsData env c md s) = (snd (MetricAndDataPointCount env md), Some (Opaque m)) \<and>
         \<not> isPermanent (Opaque m :: ('r list) error)) \<and>
      (encodeBody env dps (DisableCompression (config c)) (wgAdd s) = ((b, gz, None), s1) \<and>
       newRequest env c b = Inr req \<and> httpDo env (calls s1) (withHeaders c gz req) = Inr resp \<and>
       \<not> (200 \<le> StatusCode resp \<and> StatusCode resp < 300) \<longrightarrow>
         fst (pushMetricsData env c md s)
           = (snd (MetricAndDataPointCount env md), Some (statusError env (StatusCode resp))) \<and>
         \<not> isPermanent (statusError env (StatusCode resp))) \<and>
      (encodeBody env dps (DisableCompression (config c)) (wgAdd s) = ((b, gz, None), s1) \<and>
       newRequest env c b = Inr req \<and> httpDo env (calls s1) (withHeaders c gz req) = Inr resp \<and>
       200 \<le> StatusCode resp \<and> StatusCode resp < 300 \<longrightarrow>
         fst (pushMetricsData env c md s) = (nd, None))) \<and>
   (traceDataToSplunk env td = (dps, nd) \<and> dps \<noteq> [] \<longrightarrow>
      (encodeBodyEvents env dps (DisableCompression (config c)) (wgAdd s) = ((b, gz, Some e), s1) \<longrightarrow>
         fst (pushTraceData env c td s) = (SpanCount env td, Some (Permanent e))) \<and>
      (encodeBodyEvents env dps (DisableCompression (config c)) (wgAdd s) = ((b, gz, None), s1) \<and>
       newRequest env c b = Inl m \<longrightarrow>
         fst (pushTraceData env c td s) = (SpanCount env td, Some (Permanent (Opaque m)))) \<and>
      (encodeBodyEvents env dps (DisableCompression (config c)) (wgAdd s) = ((b, gz, None), s1) \<and>
       newRequest env c b = Inr req \<and> httpDo env (calls s1) (withHeaders c gz req) = Inl m \<longrightarrow>
         fst (pushTraceData env c td s) = (SpanCount env td, Some (Opaque m)) \<and>
         \<not> isPermanent (Opaque m :: ('r list) error)) \<and>
      (encodeBodyEvents env dps (DisableCompression (config c)) (wgAdd s) = ((b, gz, None), s1) \<and>
       newRequest env c b = Inr req \<and> httpDo env (calls s1) (withHeaders c gz req) = Inr resp \<and>
       \<not> (200 \<le> StatusCode resp \<and> StatusCode resp < 300) \<longrightarrow>
         fst (pushTraceData env c td s)
           = (SpanCount env td, Some (statusError env (StatusCode resp))) \<and>
         \<not> isPermanent (statusError env (StatusCode resp))) \<and>
      (encodeBodyEvents env dps (DisableCompression (config c)) (wgAdd s) = ((b, gz, None), s1) \<and>
       newRequest env c b = Inr req \<and> httpDo env (calls s1) (withHeaders c gz req) = Inr resp \<and>
       200 \<le> StatusCode resp \<and> StatusCode resp < 300 \<longrightarrow>
         fst (pushTraceData env c td s) = (nd, None))) \<and>
   fst (fst (pushMetricsData env c md s))
     = (if snd (fst (pushMetricsData env c md s)) = None then snd (metricDataToSplunk env md)
        else snd (MetricAndDataPointCount env md)) \<and>
   fst (fst (pushTraceData env c td s))
     = (if snd (fst (pushTraceData env c td s)) = None then snd (traceDataToSplunk env td)
        else SpanCount env td)"
proof -
  have metrics: "fst (pushMetricsData env c md s) = fst (metricsBody env c md (wgAdd s))"
    by (simp add: pushMetricsData_def split: prod.splits)
  have traces: "fst (pushTraceData env c td s) = fst (tracesBody env c td (wgAdd s))"
    by (simp add: pushTraceData_def split: prod.splits)
  have m_total: "fst (fst (metricsBody env c md s0))
     = (if snd (fst (metricsBody env c md s0)) = None then snd (metricDataToSplunk env md)
        else snd (MetricAndDataPointCount env md))" for s0
    by (auto simp: metricsBody_def numMetricPoint_def split: prod.splits option.splits sum.splits)
  have t_total: "fst (fst (tracesBody env c td s0))
     = (if snd (fst (tracesBody env c td s0)) = None then snd (traceDataToSplunk env td)
        else SpanCount env td)" for s0
    by (auto simp: tracesBody_def split: prod.splits option.splits)
  show ?thesis
    unfolding metrics traces m_total t_total
    by (auto simp: metricsBody_def tracesBody_def sendSplunkEvents_def postEvents_def clientDo_def
          statusError_def numMetricPoint_def)
qed

theorem push_outcomes_witness:
  "MetricAndDataPointCount demoEnv demoBatch = (1, 2) \<and>
   metricDataToSplunk demoEnv demoBatch = (demoBatch, 0) \<and>
   traceDataToSplunk demoEnv demoBatch = (demoBatch, 0) \<and>
   fst (pushMetricsData demoEnv demoClient badBatch (idle 0))
     = (2, Some (Permanent (Opaque ''unsupported value''))) \<and>
   fst (pushTraceData demoEnv demoClient badBatch (idle 0))
     = (2, Some (Permanent (Opaque ''unsupported value''))) \<and>
   fst (pushMetricsData demoEnv noUrlClient demoBatch (idle 0))
     = (2, Some (Permanent (Opaque ''missing url''))) \<and>
   fst (pushTraceData demoEnv noUrlClient demoBatch (idle 0))
     = (2, Some (Permanent (Opaque ''missing url''))) \<and>
   fst (pushMetricsData demoEnv demoClient demoBatch (idle 2))
     = (2, Some (Opaque ''connection refused'')) \<and>
   fst (pushTraceData demoEnv demoClient demoBatch (idle 2))
     = (2, Some (Opaque ''connection refused'')) \<and>
   fst (pushMetricsData demoEnv demoClient demoBatch (idle 1)) = (2, Some status503) \<and>
   fst (pushTraceData demoEnv demoClient demoBatch (idle 1)) = (2, Some status503) \<and>
   \<not> isPermanent status503 \<and>
   fst (pushMetricsData demoEnv demoClient demoBatch (idle 0)) = (0, None) \<and>
   fst (pushTraceData demoEnv demoClient demoBatch (idle 0)) = (0, None)"
proof -
  have conv: "metricDataToSplunk demoEnv evs = (evs, 0)" "traceDataToSplunk demoEnv evs = (evs, 0)"
    "MetricAndDataPointCount demoEnv evs = (1, int (length evs))"
    "SpanCount demoEnv evs = int (length evs)" for evs
    by (simp_all add: demoEnv_def)
  have len: "length demoBatch = 2" "length badBatch = 2" "demoBatch \<noteq> []" "badBatch \<noteq> []"
    by (simp_all add: demoBatch_def badBatch_def)
  have bad: "encodeBody demoEnv badBatch (DisableCompression (config demoClient)) (wgAdd (idle 0))
      = (([], False, Some (Opaque ''unsupported value'')), wgAdd (idle 0))"
    "encodeBodyEvents demoEnv badBatch (DisableCompression (config demoClient)) (wgAdd (idle 0))
      = (([], False, Some (Opaque ''unsupported value'')), wgAdd (idle 0))"
    by (simp_all add: encodeBody_def encodeBodyEvents_def demoEnv_def badBatch_def)
  have enc: "encodeBody demoEnv demoBatch (DisableCompression (config cl)) (wgAdd (idle n))
      = ((demoBody, False, None), wgAdd (idle n))"
    "encodeBodyEvents demoEnv demoBatch (DisableCompression (config cl)) (wgAdd (idle n))
      = ((demoBody, False, None), wgAdd (idle n))" for cl n
    by (simp_all add: encodeBody_def encodeBodyEvents_def getReader_def demoEnv_def sep_def
          demoBatch_def demoBody_def)
  have req: "newRequest demoEnv demoClient demoBody = Inr (demoRequest demoBody)"
    "newRequest demoEnv noUrlClient demoBody = Inl ''missing url''"
    by (simp_all add: newRequest_def demoEnv_def demoClient_def noUrlClient_def demoRequest_def)
  have net: "httpDo demoEnv (calls (wgAdd (idle 0))) r = Inr \<lparr>StatusCode = 200, Body = ''ok''\<rparr>"
    "httpDo demoEnv (calls (wgAdd (idle 1))) r = Inr \<lparr>StatusCode = 503, Body = []\<rparr>"
    "httpDo demoEnv (calls (wgAdd (idle 2))) r = Inl ''connection refused''" for r
    by (simp_all add: demoEnv_def idle_def wgAdd_def emit_def)
  have st: "statusError demoEnv 503 = status503"
  proof -
    have "fmt_d 503 = ''503''" by code_simp
    moreover have "fmt_q ''Service Unavailable'' = [CHR 0x22] @ ''Service Unavailable'' @ [CHR 0x22]"
      by (rule fmt_q_plain) (simp add: plainChar_def)
    ultimately show ?thesis by (simp add: statusError_def status503_def demoEnv_def)
  qed
  have a: "fst (pushMetricsData demoEnv demoClient badBatch (idle 0))
             = (2, Some (Permanent (Opaque ''unsupported value''))) \<and>
           fst (pushTraceData demoEnv demoClient badBatch (idle 0))
             = (2, Some (Permanent (Opaque ''unsupported value'')))"
    using conv len bad
      push_outcomes [where env = demoEnv and md = badBatch and td = badBatch and dps = badBatch
        and nd = 0 and c = demoClient and s = "idle 0" and b = "[]" and gz = False
        and e = "Opaque ''unsupported value''" and ?s1.0 = "wgAdd (idle 0)"]
    by simp
  have b: "fst (pushMetricsData demoEnv noUrlClient demoBatch (idle 0))
             = (2, Some (Permanent (Opaque ''missing url''))) \<and>
           fst (pushTraceData demoEnv noUrlClient demoBatch (idle 0))
             = (2, Some (Permanent (Opaque ''missing url'')))"
    using conv len enc [of noUrlClient 0] req
      push_outcomes [where env = demoEnv and md = demoBatch and td = demoBatch
        and dps = demoBatch and nd = 0 and c = noUrlClient and s = "idle 0"
        and b = demoBody and gz = False and ?s1.0 = "wgAdd (idle 0)"
        and m = "''missing url''"]
    by simp
  have c: "fst (pushMetricsData demoEnv demoClient demoBatch (idle 2))
             = (2, Some (Opaque ''connection refused'')) \<and>
           fst (pushTraceData demoEnv demoClient demoBatch (idle 2))
             = (2, Some (Opaque ''connection refused''))"
    using conv len enc [of demoClient 2] req net [of "withHeaders demoClient False (demoRequest demoBody)"]
      push_outcomes [where env = demoEnv and md = demoBatch and td = demoBatch
        and dps = demoBatch and nd = 0 and c = demoClient and s = "idle 2"
        and b = demoBody and gz = False and ?s1.0 = "wgAdd (idle 2)"
        and req = "demoRequest demoBody" and m = "''connection refused''"]
    by simp
  have d: "fst (pushMetricsData demoEnv demoClient demoBatch (idle 1)) = (2, Some status503) \<and>
           fst (pushTraceData demoEnv demoClient demoBatch (idle 1)) = (2, Some status503) \<and>
           \<not> isPermanent status503"
    using conv len enc [of demoClient 1] req net [of "withHeaders demoClient False (demoRequest demoBody)"] st
      push_outcomes [where env = demoEnv and md = demoBatch and td = demoBatch
        and dps = demoBatch and nd = 0 and c = demoClient and s = "idle 1"
        and b = demoBody and gz = False and ?s1.0 = "wgAdd (idle 1)"
        and req = "demoRequest demoBody"
        and resp = "\<lparr>StatusCode = 503, Body = []\<rparr>"]
    by simp
  have e: "fst (pushMetricsData demoEnv demoClient demoBatch (idle 0)) = (0, None) \<and>
           fst (pushTraceData demoEnv demoClient demoBatch (idle 0)) = (0, None)"
    using conv len enc [of demoClient 0] req net [of "withHeaders demoClient False (demoRequest demoBody)"]
      push_outcomes [where env = demoEnv and md = demoBatch and td = demoBatch
        and dps = demoBatch and nd = 0 and c = demoClient and s = "idle 0"
        and b = demoBody and gz = False and ?s1.0 = "wgAdd (idle 0)"
        and req = "demoRequest demoBody"
        and resp = "\<lparr>StatusCode = 200, Body = ''ok''\<rparr>"]
    by simp
  from a b c d e conv len show ?thesis by simp
qed

subsection \<open>The compression decision\<close>

lemma postEvents_requests:
  "postEvents env c b gz s = (e, s1) \<Longrightarrow>
     requests (trace s1) = requests (trace s) \<or>
     requests (trace s1) = requests (trace s) @ [wireRequest c b gz]"
  by (auto simp: postEvents_def clientDo_def newRequest_def wireRequest_def requests_append
           split: sum.splits if_splits option.splits)

lemma consume_requests:
  "consumeChunks env c ld chunks (gzReset env w0) [] s = (r, w1, gb1, s1) \<Longrightarrow>
     req \<in> set (requests (trace s1)) \<Longrightarrow>
     req \<in> set (requests (trace s)) \<or>
     (\<exists>chunk \<in> set chunks. \<exists>w. err chunk = None \<and> buf chunk \<noteq> [] \<and> req = chunkWire env c w chunk)"
proof (induction chunks arbitrary: w0 s)
  case Nil
  then show ?case by simp
next
  case (Cons chunk rest)
  let ?here = "\<exists>w. err chunk = None \<and> buf chunk \<noteq> [] \<and> req = chunkWire env c w chunk"
  have tail: "req \<in> set (requests (trace s')) \<or>
      (\<exists>ch \<in> set rest. \<exists>w. err ch = None \<and> buf ch \<noteq> [] \<and> req = chunkWire env c w ch)"
    if "consumeChunks env c ld rest (gzReset env w') [] s' = (r, w1, gb1, s1)" for w' s'
    using Cons.IH [OF that Cons.prems(2)] .
  show ?case
  proof (cases "err chunk")
    case (Some e)
    with Cons.prems show ?thesis by auto
  next
    case None
    show ?thesis
    proof (cases "buf chunk = []")
      case True
      with None Cons.prems(1) have "consumeChunks env c ld rest (gzReset env w0) [] s = (r, w1, gb1, s1)"
        by simp
      from tail [OF this] show ?thesis by auto
    next
      case False
      show ?thesis
      proof (cases "length (buf chunk) \<le> 1500 \<or> DisableCompression (config c)")
        case True
        then have wire: "chunkWire env c w chunk = wireRequest c (buf chunk) False" for w
          by (auto simp: chunkWire_def)
        obtain e s' where post: "postEvents env c (buf chunk) False s = (e, s')"
          by (cases "postEvents env c (buf chunk) False s") auto
        from postEvents_requests [OF post]
        have sent: "req \<in> set (requests (trace s')) \<Longrightarrow> req \<in> set (requests (trace s)) \<or> ?here"
          using None False wire by auto
        show ?thesis
        proof (cases e)
          case (Some e')
          with None False True post Cons.prems(1) have "s1 = s'" by auto
          with sent Cons.prems(2) show ?thesis by auto
        next
          case eNone: None
          with None False True post Cons.prems(1)
          have "consumeChunks env c ld rest (gzReset env w0) [] s' = (r, w1, gb1, s1)"
            by auto
          from tail [OF this] sent show ?thesis by auto
        qed
      next
        case big: False
        obtain we w2 out where wr: "gzWrite env (gzReset env w0) (buf chunk) = (we, w2, out)"
          by (cases "gzWrite env (gzReset env w0) (buf chunk)") auto
        show ?thesis
        proof (cases we)
          case (Some m)
          with None False big wr Cons.prems(1) have "s1 = emit (GzWrite (buf chunk)) s" by auto
          with Cons.prems(2) show ?thesis by (simp add: requests_append)
        next
          case wNone: None
          obtain fe w3 out2 where fl: "gzFlush env w2 = (fe, w3, out2)"
            by (cases "gzFlush env w2") auto
          have wire: "chunkWire env c w0 chunk = wireRequest c (out @ out2) True"
            using big wr fl by (auto simp: chunkWire_def gzipFlushed_def)
          obtain e s' where post: "postEvents env c (out @ out2) True
              (emit GzFlush (emit (GzWrite (buf chunk)) s)) = (e, s')"
            by (cases "postEvents env c (out @ out2) True
                  (emit GzFlush (emit (GzWrite (buf chunk)) s))") auto
          from postEvents_requests [OF post]
          have sent: "req \<in> set (requests (trace s')) \<Longrightarrow> req \<in> set (requests (trace s)) \<or> ?here"
            using None False wire [symmetric] by (auto simp: requests_append)
          show ?thesis
          proof (cases e)
            case (Some e')
            with None False big wr wNone fl post Cons.prems(1) have "s1 = s'" by auto
            with sent Cons.prems(2) show ?thesis by auto
          next
            case eNone: None
            with None False big wr wNone fl post Cons.prems(1)
            have "consumeChunks env c ld rest (gzReset env w3) [] (emit GzReset s') = (r, w1, gb1, s1)"
              by auto
            from tail [OF this] sent show ?thesis by (auto simp: requests_append)
          qed
        qed
      qed
    qed
  qed
qed


lemma getReader_requests: "requests (trace (snd (getReader env b dis s))) = requests (trace s)"
  by (auto simp: getReader_def poolGet_def poolPut_def requests_append
           split: list.splits option.splits prod.splits)

lemma pushLogStart_shape:
  "\<exists>w0 s0. pushLogStart env s = (gzReset env w0, [], s0) \<and> requests (trace s0) = requests (trace s)"
  by (auto simp: pushLogStart_def poolGet_def requests_append split: list.splits)

lemma pushLogData_requests:
  assumes "req \<in> set (requests (trace (snd (pushLogData env c ld s))))"
  shows "req \<in> set (requests (trace s)) \<or>
     (\<exists>chunk \<in> set (chunkEvents env (config c) ld). \<exists>w.
        err chunk = None \<and> buf chunk \<noteq> [] \<and> req = chunkWire env c w chunk)"
proof -
  obtain w0 s0 where init: "pushLogStart env s = (gzReset env w0, [], s0)"
    and r0: "requests (trace s0) = requests (trace s)"
    using pushLogStart_shape [of env s] by blast
  obtain r w1 b1 s1 where loop:
    "consumeChunks env c ld (chunkEvents env (config c) ld) (gzReset env w0) [] s0 = (r, w1, b1, s1)"
    by (cases "consumeChunks env c ld (chunkEvents env (config c) ld) (gzReset env w0) [] s0") auto
  have "requests (trace (snd (pushLogData env c ld s))) = requests (trace s1)"
    by (simp add: pushLogData_def init loop trace_pushLogDeferred requests_append)
  with assms have "req \<in> set (requests (trace s1))" by simp
  from consume_requests [OF loop this] r0 show ?thesis by simp
qed

lemma sendSplunkEvents_requests:
  assumes "req \<in> set (requests (trace (snd (sendSplunkEvents env c evs s))))"
  shows "req \<in> set (requests (trace s)) \<or>
     (\<exists>b gz s1. encodeBodyEvents env evs (DisableCompression (config c)) s = ((b, gz, None), s1) \<and>
        req = wireRequest c b gz)"
proof -
  obtain b gz e s1 where enc:
    "encodeBodyEvents env evs (DisableCompression (config c)) s = ((b, gz, e), s1)"
    by (cases "encodeBodyEvents env evs (DisableCompression (config c)) s") auto
  have r1: "requests (trace s1) = requests (trace s)"
    using enc getReader_requests [of env _ "DisableCompression (config c)" s]
    by (auto simp: encodeBodyEvents_def split: sum.splits) (metis snd_conv)
  show ?thesis
  proof (cases e)
    case (Some e')
    with enc assms r1 show ?thesis by (simp add: sendSplunkEvents_def)
  next
    case None
    obtain e2 s2 where post: "postEvents env c b gz s1 = (e2, s2)"
      by (cases "postEvents env c b gz s1") auto
    from None enc post assms have "req \<in> set (requests (trace s2))"
      by (simp add: sendSplunkEvents_def)
    with postEvents_requests [OF post] r1 None enc show ?thesis by auto
  qed
qed

lemma pushTraceData_requests:
  assumes "req \<in> set (requests (trace (snd (pushTraceData env c td s))))"
  shows "req \<in> set (requests (trace s)) \<or>
     (\<exists>b gz s1. encodeBodyEvents env (fst (traceDataToSplunk env td))
          (DisableCompression (config c)) (wgAdd s) = ((b, gz, None), s1) \<and>
        req = wireRequest c b gz)"
proof (cases "fst (traceDataToSplunk env td) = []")
  case True
  with assms show ?thesis
    by (auto simp: pushTraceData_def tracesBody_def requests_append split: prod.splits)
next
  case False
  with assms have "req \<in> set (requests (trace
      (snd (sendSplunkEvents env c (fst (traceDataToSplunk env td)) (wgAdd s)))))"
    by (auto simp: pushTraceData_def tracesBody_def requests_append
             split: prod.splits option.splits)
  from sendSplunkEvents_requests [OF this] show ?thesis
    by (simp add: requests_append)
qed

lemma pushMetricsData_requests:
  assumes "req \<in> set (requests (trace (snd (pushMetricsData env c md s))))"
  shows "req \<in> set (requests (trace s)) \<or>
     (\<exists>b gz s1. encodeBody env (fst (metricDataToSplunk env md))
          (DisableCompression (config c)) (wgAdd s) = ((b, gz, None), s1) \<and>
        req = wireRequest c b gz)"
proof -
  obtain b gz e s1 where enc:
    "encodeBody env (fst (metricDataToSplunk env md)) (DisableCompression (config c)) (wgAdd s)
       = ((b, gz, e), s1)"
    by (cases "encodeBody env (fst (metricDataToSplunk env md)) (DisableCompression (config c))
                 (wgAdd s)") auto
  have r1: "requests (trace s1) = requests (trace s)"
    using enc getReader_requests [of env _ "DisableCompression (config c)" "wgAdd s"]
    by (auto simp: encodeBody_def requests_append split: sum.splits) (metis snd_conv)
  from assms enc r1 show ?thesis
    by (auto simp: pushMetricsData_def metricsBody_def clientDo_def newRequest_def
          wireRequest_def requests_append
          split: prod.splits option.splits sum.splits if_splits)
qed

text \<open>
  C2: a body is sent compressed if and only if compression is not disabled and the body is
  longer than 1500 bytes. When \<open>getReader\<close> returns without error, its flag says exactly that,
  and what it returns is the whole buffer as it is, or what the engine made of the whole
  buffer; a buffer of exactly 1500 bytes is returned as it is. Every request that a push
  of metrics or traces makes carries what \<open>getReader\<close> returned, marked as compressed
  according to its flag, and every request that a push of logs makes is the wire form of one
  of its chunks: the whole chunk as it is, unmarked, or what the engine made of the whole
  chunk, marked, the second exactly for a chunk above 1500 bytes with compression enabled.
\<close>

theorem compression_decision:
  "(getReader env b dis s = ((wire, gz, e), s1) \<longrightarrow>
      (e = None \<longrightarrow> (gz \<longleftrightarrow> \<not> dis \<and> 1500 < length b)) \<and>
      (gz \<longrightarrow> e = None \<and> wire = gzipClosed env (fst (poolGet env s)) b) \<and>
      (\<not> gz \<longrightarrow> wire = b)) \<and>
   (length b = 1500 \<longrightarrow> getReader env b dis s = ((b, False, None), s)) \<and>
   (\<forall>req \<in> set (requests (trace (snd (pushMetricsData env c md s)))).
      req \<in> set (requests (trace s)) \<or>
      (\<exists>b gz s1. encodeBody env (fst (metricDataToSplunk env md))
           (DisableCompression (config c)) (wgAdd s) = ((b, gz, None), s1) \<and>
         req = wireRequest c b gz)) \<and>
   (\<forall>req \<in> set (requests (trace (snd (pushTraceData env c td s)))).
      req \<in> set (requests (trace s)) \<or>
      (\<exists>b gz s1. encodeBodyEvents env (fst (traceDataToSplunk env td))
           (DisableCompression (config c)) (wgAdd s) = ((b, gz, None), s1) \<and>
         req = wireRequest c b gz)) \<and>
   (\<forall>req \<in> set (requests (trace (snd (pushLogData env c ld s)))).
      req \<in> set (requests (trace s)) \<or>
      (\<exists>chunk \<in> set (chunkEvents env (config c) ld). \<exists>w.
         err chunk = None \<and> buf chunk \<noteq> [] \<and> req = chunkWire env c w chunk))"
proof (intro conjI ballI impI)
  assume g: "getReader env b dis s = ((wire, gz, e), s1)"
  then show "gz \<longleftrightarrow> \<not> dis \<and> 1500 < length b" if "e = None"
    using that by (auto simp: getReader_def split: if_splits prod.splits option.splits)
  from g show "e = None" if gz
    using that by (auto simp: getReader_def split: if_splits prod.splits option.splits)
  from g show "wire = gzipClosed env (fst (poolGet env s)) b" if gz
    using that
    by (auto simp: getReader_def gzipClosed_def split: if_splits prod.splits option.splits)
  from g show "wire = b" if "\<not> gz"
    using that by (auto simp: getReader_def split: if_splits prod.splits option.splits)
next
  assume "length b = 1500"
  then show "getReader env b dis s = ((b, False, None), s)"
    by (simp add: getReader_def)
qed (erule pushMetricsData_requests pushTraceData_requests pushLogData_requests)+


theorem compression_decision_witness:
  "length bigBody = 1501 \<and>
   getReader demoEnv bigBody False (idle 0)
     = ((''gz:'' @ bigBody, True, None),
        \<lparr>zippers = [[]], wg = 0, calls = 0,
           trace = [PoolGet, GzReset, GzWrite bigBody, GzClose, PoolPut]\<rparr>) \<and>
   gzipClosed demoEnv (fst (poolGet demoEnv (idle 0))) bigBody = ''gz:'' @ bigBody \<and>
   getReader demoEnv bigBody True (idle 0) = ((bigBody, False, None), idle 0) \<and>
   getReader demoEnv (replicate 1500 (CHR ''a'')) False (idle 0)
     = ((replicate 1500 (CHR ''a''), False, None), idle 0) \<and>
   requests (trace (snd (pushLogData demoEnv demoClient [bigBody] (idle 0))))
     = [wireRequest demoClient (''gz:'' @ bigBody @ sep) True] \<and>
   chunkEvents demoEnv (config demoClient) [bigBody]
     = [\<lparr>index = 0, buf = bigBody @ sep, err = None\<rparr>] \<and>
   chunkWire demoEnv demoClient [] \<lparr>index = 0, buf = bigBody @ sep, err = None :: (string list) error option\<rparr>
     = wireRequest demoClient (''gz:'' @ bigBody @ sep) True"
proof -
  have len: "length bigBody = 1501" "bigBody \<noteq> []"
    by (auto simp: bigBody_def)
  have g1: "getReader demoEnv bigBody False (idle 0)
     = ((''gz:'' @ bigBody, True, None),
        \<lparr>zippers = [[]], wg = 0, calls = 0,
           trace = [PoolGet, GzReset, GzWrite bigBody, GzClose, PoolPut]\<rparr>)"
    by (simp add: getReader_def len poolGet_def poolPut_def emit_def idle_def demoEnv_def)
  have g2: "getReader demoEnv bigBody True (idle 0) = ((bigBody, False, None), idle 0)"
    by (simp add: getReader_def)
  have c: "chunkEvents demoEnv (config demoClient) [bigBody]
     = [\<lparr>index = 0, buf = bigBody @ sep, err = None\<rparr>]"
    by (simp add: chunkEvents_def chunkRecords_def len demoEnv_def)
  have w: "chunkWire demoEnv demoClient [] \<lparr>index = 0, buf = bigBody @ sep, err = None :: (string list) error option\<rparr>
     = wireRequest demoClient (''gz:'' @ bigBody @ sep) True"
    by (simp add: chunkWire_def gzipFlushed_def len demoEnv_def demoClient_def)
  have l: "requests (trace (snd (pushLogData demoEnv demoClient [bigBody] (idle 0))))
     = [wireRequest demoClient (''gz:'' @ bigBody @ sep) True]"
    unfolding pushLogData_def c
    by (simp add: pushLogStart_def pushLogDeferred_def len poolGet_def
          poolPut_def wgAdd_def wgDone_def emit_def idle_def postEvents_def clientDo_def
          newRequest_def wireRequest_def demoEnv_def demoClient_def)
  show ?thesis
    using len g1 g2 c w l
      compression_decision [of demoEnv bigBody False "idle 0" "''gz:'' @ bigBody" True None
        "\<lparr>zippers = [[]], wg = 0, calls = 0,
           trace = [PoolGet, GzReset, GzWrite bigBody, GzClose, PoolPut]\<rparr>"
        demoClient "[]" "[]" "[bigBody]"]
      compression_decision [of demoEnv "replicate 1500 (CHR ''a'')" False "idle 0"]
    by simp
qed

subsection \<open>The wire body and its decoding\<close>

lemma encodeLoop_framed:
  "\<forall>e \<in> set evs. encodable enc e \<Longrightarrow> encodeLoop enc acc evs = Inr (acc @ framed enc evs)"
  by (induction evs arbitrary: acc) (auto simp: framed_def jsonOf_def encodable_def split: sum.splits)

lemma three_more: "3 \<le> length xs \<Longrightarrow> \<exists>b c d ys. xs = b # c # d # ys"
  by (cases xs; cases "tl xs"; cases "tl (tl xs)") auto

lemma splitOn_piece:
  "CHR 0x0D \<notin> set p \<Longrightarrow> splitOn cur (p @ sep @ rest) = (cur @ p) # splitOn [] rest"
proof (induction p arbitrary: cur)
  case Nil
  show ?case by (simp add: sep_def)
next
  case (Cons x p)
  have "3 \<le> length (p @ sep @ rest)" by (simp add: sep_def)
  then obtain b c d ys where shape: "p @ sep @ rest = b # c # d # ys"
    using three_more by blast
  from Cons.prems have x: "x \<noteq> CHR 0x0D" and p: "CHR 0x0D \<notin> set p" by auto
  have "splitOn cur ((x # p) @ sep @ rest) = splitOn cur (x # b # c # d # ys)"
    using shape by simp
  also have "\<dots> = splitOn (cur @ [x]) (b # c # d # ys)"
    using x by (simp add: sep_def)
  also have "\<dots> = splitOn (cur @ [x]) (p @ sep @ rest)"
    using shape by simp
  also have "\<dots> = (cur @ [x] @ p) # splitOn [] rest"
    using Cons.IH [OF p, of "cur @ [x]"] by simp
  finally show ?case by simp
qed

lemma splitOn_framed:
  "\<forall>e \<in> set evs. CHR 0x0D \<notin> set (jsonOf enc e) \<Longrightarrow>
     splitOn [] (framed enc evs) = map (jsonOf enc) evs"
proof (induction evs)
  case Nil
  show ?case by (simp add: framed_def)
next
  case (Cons e evs)
  have "framed enc (e # evs) = jsonOf enc e @ sep @ framed enc evs"
    by (simp add: framed_def)
  with Cons show ?case
    by (simp add: splitOn_piece)
qed

text \<open>
  C3: for events that can all be serialized, the buffer that \<open>encodeBodyEvents\<close> and
  \<open>encodeBody\<close> hand to \<open>getReader\<close> is the concatenation, in the order of the events, of the
  serialization of each event followed by the separator, and the wire body is this buffer
  or what the engine made of it. Decoding the wire body gives back the events in their
  order, for a serialization that has no carriage return and that \<open>parse\<close> inverts, and for a
  \<open>gunzip\<close> that inverts the engine. The serialization of an event is what
  \<open>encoder.Encode\<close> writes for it (in Go, the JSON text and a newline).
\<close>

theorem wire_body_roundtrip:
  assumes ok: "\<forall>e \<in> set evs. encodable (jsonEncode env) e \<and>
                  CHR 0x0D \<notin> set (jsonOf (jsonEncode env) e) \<and>
                  parse (jsonOf (jsonEncode env) e) = e"
    and unzip: "\<forall>w b w2 out w3 out'.
                  gzWrite env (gzReset env w) b = (None, w2, out) \<and> gzClose env w2 = (None, w3, out')
                    \<longrightarrow> gunzip (out @ out') = b"
  shows "encodeBodyEvents env evs dis s = getReader env (framed (jsonEncode env) evs) dis s \<and>
         encodeBody env evs dis s = getReader env (framed (jsonEncode env) evs) dis s \<and>
         (encodeBodyEvents env evs dis s = ((wire, gz, None), s1) \<longrightarrow>
            wire = (if gz then gzipClosed env (fst (poolGet env s)) (framed (jsonEncode env) evs)
                    else framed (jsonEncode env) evs) \<and>
            decodeBody gunzip parse wire gz = evs) \<and>
         (encodeBody env evs dis s = ((wire, gz, None), s1) \<longrightarrow>
            wire = (if gz then gzipClosed env (fst (poolGet env s)) (framed (jsonEncode env) evs)
                    else framed (jsonEncode env) evs) \<and>
            decodeBody gunzip parse wire gz = evs)"
proof -
  let ?raw = "framed (jsonEncode env) evs"
  have loop: "encodeLoop (jsonEncode env) [] evs = Inr ?raw"
    using encodeLoop_framed [of evs "jsonEncode env" "[]"] ok by simp
  have e1: "encodeBodyEvents env evs dis s = getReader env ?raw dis s"
    by (simp add: encodeBodyEvents_def loop)
  have e2: "encodeBody env evs dis s = getReader env ?raw dis s"
    by (simp add: encodeBody_def loop)
  have pieces: "map parse (splitOn [] ?raw) = evs"
    using splitOn_framed [of evs "jsonEncode env"] ok by (simp add: map_idI)
  have rt: "wire = (if gz then gzipClosed env (fst (poolGet env s)) ?raw else ?raw) \<and>
      decodeBody gunzip parse wire gz = evs"
    if g: "getReader env ?raw dis s = ((wire, gz, None), s1)"
  proof (cases gz)
    case False
    with g have "wire = ?raw"
      by (auto simp: getReader_def split: if_splits prod.splits option.splits)
    with False pieces show ?thesis by (simp add: decodeBody_def)
  next
    case True
    with g obtain w2 out w3 out' where
      wr: "gzWrite env (gzReset env (fst (poolGet env s))) ?raw = (None, w2, out)"
      and cl: "gzClose env w2 = (None, w3, out')" and wire: "wire = out @ out'"
      by (auto simp: getReader_def split: if_splits prod.splits option.splits)
    from unzip wr cl have "gunzip (out @ out') = ?raw" by blast
    moreover have "gzipClosed env (fst (poolGet env s)) ?raw = out @ out'"
      by (simp add: gzipClosed_def wr cl)
    ultimately show ?thesis using True wire pieces by (simp add: decodeBody_def)
  qed
  from e1 e2 rt show ?thesis by simp
qed


theorem wire_body_roundtrip_witness:
  "list_all (\<lambda>e. encodable (jsonEncode demoEnv) e \<and> CHR 0x0D \<notin> set (jsonOf (jsonEncode demoEnv) e))
     [''{a}'', ''{b}'', bigBody] \<and>
   encodeBodyEvents demoEnv [''{a}'', ''{b}''] False (idle 0)
     = ((''{a}'' @ sep @ ''{b}'' @ sep, False, None), idle 0) \<and>
   decodeBody (drop 3) (\<lambda>js. js) (''{a}'' @ sep @ ''{b}'' @ sep) False = [''{a}'', ''{b}''] \<and>
   fst (encodeBody demoEnv [bigBody] False (idle 0)) = (''gz:'' @ bigBody @ sep, True, None) \<and>
   decodeBody (drop 3) (\<lambda>js. js) (''gz:'' @ bigBody @ sep) True = [bigBody]"
proof -
  have len: "length bigBody = 1501" "bigBody \<noteq> []" "CHR 0x0D \<notin> set bigBody"
    by (auto simp: bigBody_def)
  have ok1: "\<forall>e \<in> set [''{a}'', ''{b}'']. encodable (jsonEncode demoEnv) e \<and>
                  CHR 0x0D \<notin> set (jsonOf (jsonEncode demoEnv) e) \<and>
                  (\<lambda>js. js) (jsonOf (jsonEncode demoEnv) e) = e"
    by (simp add: demoEnv_def encodable_def jsonOf_def)
  have ok2: "\<forall>e \<in> set [bigBody]. encodable (jsonEncode demoEnv) e \<and>
                  CHR 0x0D \<notin> set (jsonOf (jsonEncode demoEnv) e) \<and>
                  (\<lambda>js. js) (jsonOf (jsonEncode demoEnv) e) = e"
    by (simp add: demoEnv_def encodable_def jsonOf_def len)
  have unzip: "\<forall>w b w2 out w3 out'.
                  gzWrite demoEnv (gzReset demoEnv w) b = (None, w2, out) \<and>
                  gzClose demoEnv w2 = (None, w3, out')
                    \<longrightarrow> drop 3 (out @ out') = b"
    by (auto simp: demoEnv_def)
  have f1: "framed (jsonEncode demoEnv) [''{a}'', ''{b}''] = ''{a}'' @ sep @ ''{b}'' @ sep"
    by (simp add: framed_def jsonOf_def demoEnv_def)
  have f2: "framed (jsonEncode demoEnv) [bigBody] = bigBody @ sep"
    by (simp add: framed_def jsonOf_def demoEnv_def len)
  have g1: "getReader demoEnv (''{a}'' @ sep @ ''{b}'' @ sep) False (idle 0)
      = ((''{a}'' @ sep @ ''{b}'' @ sep, False, None), idle 0)"
    by (simp add: getReader_def sep_def)
  have g2: "getReader demoEnv (bigBody @ sep) False (idle 0)
      = ((''gz:'' @ bigBody @ sep, True, None),
         poolPut [] (emit GzClose (emit (GzWrite (bigBody @ sep)) (emit GzReset (emit PoolGet (idle 0))))))"
    by (simp add: getReader_def poolGet_def len idle_def demoEnv_def)
  have a: "encodeBodyEvents demoEnv [''{a}'', ''{b}''] False (idle 0)
     = ((''{a}'' @ sep @ ''{b}'' @ sep, False, None), idle 0) \<and>
   decodeBody (drop 3) (\<lambda>js. js) (''{a}'' @ sep @ ''{b}'' @ sep) False = [''{a}'', ''{b}'']"
    using wire_body_roundtrip [OF ok1 unzip, of False "idle 0" "''{a}'' @ sep @ ''{b}'' @ sep" False
        "idle 0"] f1 g1
    by simp
  have b: "fst (encodeBody demoEnv [bigBody] False (idle 0)) = (''gz:'' @ bigBody @ sep, True, None) \<and>
   decodeBody (drop 3) (\<lambda>js. js) (''gz:'' @ bigBody @ sep) True = [bigBody]"
    using wire_body_roundtrip [OF ok2 unzip, of False "idle 0" "''gz:'' @ bigBody @ sep" True
        "poolPut [] (emit GzClose (emit (GzWrite (bigBody @ sep)) (emit GzReset (emit PoolGet (idle 0)))))"]
      f2 g2
    by simp
  from a b ok1 ok2 len show ?thesis by (simp add: list_all_iff)
qed

subsection \<open>The wait group\<close>

text \<open>
  Seen one call at a time: each push leaves the counter of the wait group as it found it,
  \<open>stop\<close> returns exactly when the counter is zero, so it returns after pushes that started
  from a counter of zero have returned, and \<open>start\<close> changes nothing and returns \<open>nil\<close>.
\<close>

lemma wg_emit [simp]: "wg (emit ev s) = wg s"
  by (simp add: emit_def)

lemma getReader_wg: "wg (snd (getReader env b dis s)) = wg s"
  by (auto simp: getReader_def poolGet_def poolPut_def split: list.splits option.splits prod.splits)

lemma postEvents_wg: "postEvents env c b gz s = (e, s1) \<Longrightarrow> wg s1 = wg s"
  by (auto simp: postEvents_def clientDo_def split: sum.splits if_splits)

lemma consume_wg:
  "consumeChunks env c ld chunks w gb s = (r, w1, gb1, s1) \<Longrightarrow> wg s1 = wg s"
proof (induction chunks arbitrary: w gb s)
  case Nil
  then show ?case by simp
next
  case (Cons chunk rest)
  from Cons.prems show ?case
    by (auto split: option.splits if_splits prod.splits dest!: postEvents_wg Cons.IH)
qed

lemma pushMetricsData_wg: "wg (snd (pushMetricsData env c md s)) = wg s"
proof -
  have "wg s1 = wg s0" if "metricsBody env c md s0 = (r, s1)" for r s0 s1
    using that getReader_wg [of env _ "DisableCompression (config c)" s0]
    by (auto simp: metricsBody_def encodeBody_def clientDo_def
             split: prod.splits if_splits option.splits sum.splits) (metis snd_conv)+
  then show ?thesis
    by (auto simp: pushMetricsData_def wgAdd_def wgDone_def split: prod.splits)
qed

lemma pushTraceData_wg: "wg (snd (pushTraceData env c td s)) = wg s"
proof -
  have "wg s1 = wg s0" if "tracesBody env c td s0 = (r, s1)" for r s0 s1
    using that getReader_wg [of env _ "DisableCompression (config c)" s0]
    by (auto simp: tracesBody_def sendSplunkEvents_def encodeBodyEvents_def
             split: prod.splits if_splits option.splits sum.splits dest!: postEvents_wg)
       (metis snd_conv)+
  then show ?thesis
    by (auto simp: pushTraceData_def wgAdd_def wgDone_def split: prod.splits)
qed

lemma pushLogData_wg: "wg (snd (pushLogData env c ld s)) = wg s"
proof -
  obtain w0 b0 s0 where init: "pushLogStart env s = (w0, b0, s0)"
    by (cases "pushLogStart env s") auto
  obtain r w1 b1 s1 where loop:
    "consumeChunks env c ld (chunkEvents env (config c) ld) w0 b0 s0 = (r, w1, b1, s1)"
    by (cases "consumeChunks env c ld (chunkEvents env (config c) ld) w0 b0 s0") auto
  have "wg s0 = wg s + 1"
    using init by (auto simp: pushLogStart_def poolGet_def wgAdd_def split: list.splits)
  moreover have "wg s1 = wg s0" using consume_wg [OF loop] .
  moreover have "wg (pushLogDeferred env w1 s1) = wg s1 - 1"
    by (auto simp: pushLogDeferred_def wgDone_def poolPut_def split: prod.splits)
  ultimately show ?thesis by (simp add: pushLogData_def init loop)
qed

lemma stop_returns: "stop s = (if wg s = 0 then Some (None, emit WgWait s) else None)"
  by (simp add: stop_def)

lemma stop_after_push:
  "wg s = 0 \<Longrightarrow>
     stop (snd (pushMetricsData env c md s)) \<noteq> (None :: ('l error option \<times> 'z state) option) \<and>
     stop (snd (pushTraceData env c td s)) \<noteq> (None :: ('l error option \<times> 'z state) option) \<and>
     stop (snd (pushLogData env c ld s)) \<noteq> (None :: ('l error option \<times> 'z state) option)"
  by (simp add: stop_def pushMetricsData_wg pushTraceData_wg pushLogData_wg)

lemma start_noop: "start s = (None, s)"
  by (simp add: start_def)

text \<open>
  Each push registers with the wait group first and releases it last: everything else it
  does, so every request it makes, lies between the two.
\<close>

lemma inside_refl [simp]: "inside s s"
  by (simp add: inside_def)

lemma inside_trans: "inside s s1 \<Longrightarrow> inside s1 s2 \<Longrightarrow> inside s s2"
  by (auto simp: inside_def)

lemma inside_emit:
  "ev \<notin> {WgAdd, WgDone, WgWait} \<Longrightarrow> inside s s1 \<Longrightarrow> inside s (emit ev s1)"
  by (auto simp: inside_def)

lemma inside_emitL:
  "inside (emit ev s) s1 \<Longrightarrow> ev \<notin> {WgAdd, WgDone, WgWait} \<Longrightarrow> inside s s1"
  by (auto simp: inside_def)

lemma inside_upd [simp]:
  "inside s (s1\<lparr>zippers := z\<rparr>) = inside s s1" "inside s (s1\<lparr>calls := n\<rparr>) = inside s s1"
  by (simp_all add: inside_def)

lemma getReader_inside: "inside s (snd (getReader env b dis s))"
  by (auto simp: getReader_def poolGet_def poolPut_def
           split: list.splits option.splits prod.splits intro!: inside_emit)

lemma postEvents_inside: "postEvents env c b gz s = (e, s1) \<Longrightarrow> inside s s1"
  by (auto simp: postEvents_def clientDo_def split: sum.splits if_splits intro!: inside_emit)

lemma consume_inside:
  "consumeChunks env c ld chunks w gb s = (r, w1, gb1, s1) \<Longrightarrow> inside s s1"
proof (induction chunks arbitrary: w gb s)
  case Nil
  then show ?case by simp
next
  case (Cons chunk rest)
  have step: "inside s s1" if "inside s s'" and "consumeChunks env c ld rest w' gb' s' = (r, w1, gb1, s1)"
    for s' w' gb'
    using that Cons.IH inside_trans by blast
  from Cons.prems show ?case
    by (auto split: option.splits if_splits prod.splits
             dest!: postEvents_inside
             intro!: inside_emit
             elim!: step [rotated] intro: inside_trans)
       (auto dest!: inside_emitL)
qed

lemma pushMetricsData_registered:
  "\<exists>mid. trace (snd (pushMetricsData env c md s)) = trace s @ WgAdd # mid @ [WgDone] \<and>
     WgAdd \<notin> set mid \<and> WgDone \<notin> set mid \<and> WgWait \<notin> set mid"
proof -
  have "inside s0 s1" if "metricsBody env c md s0 = (r, s1)" for r s0 s1
    using that getReader_inside [of s0 env _ "DisableCompression (config c)"]
    by (auto simp: metricsBody_def encodeBody_def clientDo_def
             split: prod.splits if_splits option.splits sum.splits
             intro!: inside_emit)
       (metis snd_conv)+
  then have "inside (wgAdd s) (snd (metricsBody env c md (wgAdd s)))"
    by (cases "metricsBody env c md (wgAdd s)") auto
  then obtain t where "trace (snd (metricsBody env c md (wgAdd s))) = trace s @ WgAdd # t"
    "WgAdd \<notin> set t" "WgDone \<notin> set t" "WgWait \<notin> set t"
    by (auto simp: inside_def)
  then show ?thesis
    by (auto simp: pushMetricsData_def split: prod.splits)
qed

lemma pushTraceData_registered:
  "\<exists>mid. trace (snd (pushTraceData env c td s)) = trace s @ WgAdd # mid @ [WgDone] \<and>
     WgAdd \<notin> set mid \<and> WgDone \<notin> set mid \<and> WgWait \<notin> set mid"
proof -
  have "inside s0 s1" if "tracesBody env c td s0 = (r, s1)" for r s0 s1
    using that getReader_inside [of s0 env _ "DisableCompression (config c)"]
    by (auto simp: tracesBody_def sendSplunkEvents_def encodeBodyEvents_def
             split: prod.splits if_splits option.splits sum.splits
             dest!: postEvents_inside intro: inside_trans)
       (metis snd_conv inside_trans)+
  then have "inside (wgAdd s) (snd (tracesBody env c td (wgAdd s)))"
    by (cases "tracesBody env c td (wgAdd s)") auto
  then obtain t where "trace (snd (tracesBody env c td (wgAdd s))) = trace s @ WgAdd # t"
    "WgAdd \<notin> set t" "WgDone \<notin> set t" "WgWait \<notin> set t"
    by (auto simp: inside_def)
  then show ?thesis
    by (auto simp: pushTraceData_def split: prod.splits)
qed

lemma pushLogData_registered:
  "\<exists>mid. trace (snd (pushLogData env c ld s)) = trace s @ WgAdd # mid @ [WgDone] \<and>
     WgAdd \<notin> set mid \<and> WgDone \<notin> set mid \<and> WgWait \<notin> set mid"
proof -
  obtain w0 b0 s0 where init: "pushLogStart env s = (w0, b0, s0)"
    by (cases "pushLogStart env s") auto
  obtain r w1 b1 s1 where loop:
    "consumeChunks env c ld (chunkEvents env (config c) ld) w0 b0 s0 = (r, w1, b1, s1)"
    by (cases "consumeChunks env c ld (chunkEvents env (config c) ld) w0 b0 s0") auto
  have t0: "trace s0 = trace s @ [WgAdd, PoolGet, GzReset]"
    using init by (auto simp: pushLogStart_def poolGet_def split: list.splits)
  from consume_inside [OF loop] obtain t where
    t: "trace s1 = trace s0 @ t" "WgAdd \<notin> set t" "WgDone \<notin> set t" "WgWait \<notin> set t"
    by (auto simp: inside_def)
  have "trace (snd (pushLogData env c ld s))
      = trace s @ WgAdd # ([PoolGet, GzReset] @ t @ [Cancel, GzClose, PoolPut]) @ [WgDone]"
    by (simp add: pushLogData_def init loop trace_pushLogDeferred t0 t(1))
  with t show ?thesis by fastforce
qed

subsection \<open>Stopping\<close>

lemma exec_append:
  "exec (xs @ ys) n s = (case exec xs n s of None \<Rightarrow> None | Some (n1, s1) \<Rightarrow> exec ys n1 s1)"
  by (induction xs n s rule: exec.induct) auto

lemma exec_wg: "exec sched n0 s0 = Some (n, s) \<Longrightarrow> wg s + int n0 = wg s0 + int n"
proof (induction sched n0 s0 rule: exec.induct)
  case (1 n s)
  then show ?case by simp
next
  case (2 acts n s)
  then show ?case by (simp add: wgAdd_def)
next
  case (3 acts n s)
  then show ?case by (auto simp: wgDone_def split: if_splits)
next
  case (4 f acts n s)
  then show ?case by (auto split: if_splits)
qed

lemma metricsWork_wg: "wg (metricsWork env c md s) = wg s"
proof -
  have "wg s1 = wg s0" if "metricsBody env c md s0 = (r, s1)" for r s0 s1
    using that getReader_wg [of env _ "DisableCompression (config c)" s0]
    by (auto simp: metricsBody_def encodeBody_def clientDo_def
             split: prod.splits if_splits option.splits sum.splits) (metis snd_conv)+
  then show ?thesis
    by (cases "metricsBody env c md s") (auto simp: metricsWork_def)
qed

lemma tracesWork_wg: "wg (tracesWork env c td s) = wg s"
proof -
  have "wg s1 = wg s0" if "tracesBody env c td s0 = (r, s1)" for r s0 s1
    using that getReader_wg [of env _ "DisableCompression (config c)" s0]
    by (auto simp: tracesBody_def sendSplunkEvents_def encodeBodyEvents_def
             split: prod.splits if_splits option.splits sum.splits dest!: postEvents_wg)
       (metis snd_conv)+
  then show ?thesis
    by (cases "tracesBody env c td s") (auto simp: tracesWork_def)
qed

lemma logsWork_wg: "wg (logsWork env c ld chunks s) = wg s"
proof -
  obtain w s1 where g: "poolGet env s = (w, s1)" by (cases "poolGet env s") auto
  then have w1: "wg s1 = wg s" by (auto simp: poolGet_def split: list.splits)
  obtain r w2 b2 s2 where loop:
    "consumeChunks env c ld chunks (gzReset env w) [] (emit GzReset s1) = (r, w2, b2, s2)"
    by (cases "consumeChunks env c ld chunks (gzReset env w) [] (emit GzReset s1)") auto
  from consume_wg [OF loop] w1 show ?thesis by (simp add: logsWork_def g loop)
qed

lemma logsWorkAll_wg: "wg (logsWorkAll env c ld s) = wg s"
proof -
  obtain w s1 where g: "poolGet env s = (w, s1)" by (cases "poolGet env s") auto
  then have w1: "wg s1 = wg s" by (auto simp: poolGet_def split: list.splits)
  obtain r w2 b2 s2 where loop:
    "consumeChunks env c ld (chunkEvents env (config c) ld) (gzReset env w) [] (emit GzReset s1)
       = (r, w2, b2, s2)"
    by (cases "consumeChunks env c ld (chunkEvents env (config c) ld) (gzReset env w) []
                 (emit GzReset s1)") auto
  from consume_wg [OF loop] w1 show ?thesis
    by (simp add: logsWorkAll_def g loop poolPut_def split: prod.splits)
qed

lemma pushMetricsData_steps: "snd (pushMetricsData env c md s) = wgDone (metricsWork env c md (wgAdd s))"
  by (simp add: pushMetricsData_def metricsWork_def split: prod.splits)

lemma pushTraceData_steps: "snd (pushTraceData env c td s) = wgDone (tracesWork env c td (wgAdd s))"
  by (simp add: pushTraceData_def tracesWork_def split: prod.splits)

lemma pushLogData_steps: "snd (pushLogData env c ld s) = wgDone (logsWorkAll env c ld (wgAdd s))"
  by (simp add: pushLogData_def pushLogStart_def pushLogDeferred_def logsWorkAll_def
           split: prod.splits)

text \<open>
  C6: in the state reached by any interleaving of pushes that starts with the counter at
  zero, \<open>stop\<close> does not return exactly when some push has entered and not left, and it
  returns \<open>nil\<close> at once when none has. A push of metrics, traces or logs is in flight from
  its first step to its last: it enters, does all its work (for logs: after any number of
  chunks \<open>stop\<close> still does not return), and leaves, and in its trace everything it does,
  so every request, lies between \<open>c.wg.Add(1)\<close> and \<open>c.wg.Done()\<close>. After it has left, the
  number of pushes in flight is what it was before. \<open>start\<close> changes nothing and returns
  \<open>nil\<close>.
\<close>

theorem stop_waits_for_pushes:
  assumes sched: "exec sched 0 s0 = Some (n, s)" and idle: "wg s0 = 0"
  shows
    "((stop s :: ('l error option \<times> 'z state) option) = None \<longleftrightarrow> 0 < n) \<and>
     (n = 0 \<longrightarrow> (stop s :: ('l error option \<times> 'z state) option) = Some (None, emit WgWait s)) \<and>
     exec (sched @ [Enter, Work (metricsWork env c md)]) 0 s0
       = Some (Suc n, metricsWork env c md (wgAdd s)) \<and>
     (stop (metricsWork env c md (wgAdd s)) :: ('l error option \<times> 'z state) option) = None \<and>
     exec (sched @ [Enter, Work (metricsWork env c md), Leave]) 0 s0
       = Some (n, snd (pushMetricsData env c md s)) \<and>
     exec (sched @ [Enter, Work (tracesWork env c td)]) 0 s0
       = Some (Suc n, tracesWork env c td (wgAdd s)) \<and>
     (stop (tracesWork env c td (wgAdd s)) :: ('l error option \<times> 'z state) option) = None \<and>
     exec (sched @ [Enter, Work (tracesWork env c td), Leave]) 0 s0
       = Some (n, snd (pushTraceData env c td s)) \<and>
     exec (sched @ [Enter, Work (logsWork env c ld chunks)]) 0 s0
       = Some (Suc n, logsWork env c ld chunks (wgAdd s)) \<and>
     (stop (logsWork env c ld chunks (wgAdd s)) :: ('l error option \<times> 'z state) option) = None \<and>
     exec (sched @ [Enter, Work (logsWorkAll env c ld), Leave]) 0 s0
       = Some (n, snd (pushLogData env c ld s)) \<and>
     (\<exists>mid. trace (snd (pushMetricsData env c md s)) = trace s @ WgAdd # mid @ [WgDone] \<and>
        WgAdd \<notin> set mid \<and> WgDone \<notin> set mid \<and> WgWait \<notin> set mid) \<and>
     (\<exists>mid. trace (snd (pushTraceData env c td s)) = trace s @ WgAdd # mid @ [WgDone] \<and>
        WgAdd \<notin> set mid \<and> WgDone \<notin> set mid \<and> WgWait \<notin> set mid) \<and>
     (\<exists>mid. trace (snd (pushLogData env c ld s)) = trace s @ WgAdd # mid @ [WgDone] \<and>
        WgAdd \<notin> set mid \<and> WgDone \<notin> set mid \<and> WgWait \<notin> set mid) \<and>
     (start s :: 'l error option \<times> 'z state) = (None, s)"
proof -
  have count: "wg s = int n"
    using exec_wg [OF sched] idle by simp
  have inflight: "wg (f (wgAdd s)) = int n + 1" if "\<And>x. wg (f x) = wg x" for f
    using that [of "wgAdd s"] count by (simp add: wgAdd_def)
  have blocked: "(stop (f (wgAdd s)) :: ('l error option \<times> 'z state) option) = None"
    if "\<And>x. wg (f x) = wg x" for f
    using inflight [OF that] by (simp add: stop_def)
  have during: "exec (sched @ [Enter, Work f]) 0 s0 = Some (Suc n, f (wgAdd s))"
    if "\<And>x. wg (f x) = wg x" for f
    using that by (simp add: exec_append sched)
  have after: "exec (sched @ [Enter, Work f, Leave]) 0 s0 = Some (n, wgDone (f (wgAdd s)))"
    if "\<And>x. wg (f x) = wg x" for f
    using that by (simp add: exec_append sched)
  have s1: "(stop s :: ('l error option \<times> 'z state) option) = None \<longleftrightarrow> 0 < n"
    using count by (simp add: stop_def)
  have s2: "n = 0 \<longrightarrow> (stop s :: ('l error option \<times> 'z state) option) = Some (None, emit WgWait s)"
    using count by (simp add: stop_def)
  note m = during [of "metricsWork env c md", OF metricsWork_wg]
    blocked [of "metricsWork env c md", OF metricsWork_wg]
    after [of "metricsWork env c md", OF metricsWork_wg, folded pushMetricsData_steps]
  note t = during [of "tracesWork env c td", OF tracesWork_wg]
    blocked [of "tracesWork env c td", OF tracesWork_wg]
    after [of "tracesWork env c td", OF tracesWork_wg, folded pushTraceData_steps]
  note l = during [of "logsWork env c ld chunks", OF logsWork_wg]
    blocked [of "logsWork env c ld chunks", OF logsWork_wg]
    after [of "logsWorkAll env c ld", OF logsWorkAll_wg, folded pushLogData_steps]
  show ?thesis
    using s1 s2 m t l pushMetricsData_registered [of env c md s]
      pushTraceData_registered [of env c td s] pushLogData_registered [of env c ld s]
    by (simp add: start_def)
qed

theorem stop_waits_for_pushes_witness:
  "wg (idle 0) = 0 \<and>
   exec demoSchedule 0 (idle 0) = Some (1, demoBusy) \<and>
   wg demoBusy = 1 \<and>
   (stop demoBusy :: ((string list) error option \<times> bytes state) option) = None \<and>
   (stop (logsWork demoEnv demoClient demoLogs [demoChunk1, demoChunk2] (wgAdd demoBusy))
      :: ((string list) error option \<times> bytes state) option) = None \<and>
   exec (demoSchedule @ [Leave]) 0 (idle 0) = Some (0, wgDone demoBusy) \<and>
   (stop (wgDone demoBusy) :: ((string list) error option \<times> bytes state) option)
     = Some (None, emit WgWait (wgDone demoBusy)) \<and>
   exec ((demoSchedule @ [Leave]) @ [Enter, Work (tracesWork demoEnv demoClient demoBatch), Leave])
       0 (idle 0)
     = Some (0, snd (pushTraceData demoEnv demoClient demoBatch (wgDone demoBusy))) \<and>
   (start demoBusy :: (string list) error option \<times> bytes state) = (None, demoBusy)"
proof -
  have h0: "wg (idle 0) = 0"
    by (simp add: idle_def)
  have h1: "exec demoSchedule 0 (idle 0) = Some (1, demoBusy)"
    by (simp add: demoSchedule_def demoBusy_def logsWork_wg metricsWork_wg)
  have h2: "exec (demoSchedule @ [Leave]) 0 (idle 0) = Some (0, wgDone demoBusy)"
    by (simp add: demoSchedule_def demoBusy_def logsWork_wg metricsWork_wg)
  have h3: "wg demoBusy = 1"
    by (simp add: demoBusy_def wgDone_def wgAdd_def logsWork_wg metricsWork_wg idle_def)
  show ?thesis
    using h0 h1 h2 h3
      stop_waits_for_pushes [OF h1 h0, where ?'l = "string list" and env = demoEnv
        and c = demoClient and ld = demoLogs and chunks = "[demoChunk1, demoChunk2]"
        and md = demoBatch and td = demoBatch]
      stop_waits_for_pushes [OF h2 h0, where ?'l = "string list" and env = demoEnv
        and c = demoClient and ld = demoLogs and chunks = "[]"
        and md = demoBatch and td = demoBatch]
    by simp
qed

end
